theory Spec2Isabelle
  imports Complex_Main "HOL-Library.Char_ord" "HOL-Library.List_Lexorder" "HOL-Library.Multiset"
begin

section \<open>Strings as the engine uses them\<close>

text \<open>
  JavaScript strings are modelled as \<open>string\<close>. The relational operators on strings
  (\<open>meta.str >= r.start\<close>) compare code units lexicographically, which is the order that
  \<open>HOL-Library.List_Lexorder\<close> over \<open>HOL-Library.Char_ord\<close> puts on \<open>string\<close>.
  \<open>toUpperCase\<close>, \<open>toLowerCase\<close> and \<open>trim\<close> are written out for the ASCII range:
  the letters \<open>a\<close> to \<open>z\<close>, and the white space characters tab, line feed, vertical
  tab, form feed, carriage return and space.
\<close>

definition upperChar :: "char \<Rightarrow> char" where
  "upperChar c = (if CHR ''a'' \<le> c \<and> c \<le> CHR ''z''
                  then char_of (of_char c - (32::nat)) else c)"

definition toUpperCase :: "string \<Rightarrow> string" where
  "toUpperCase s = map upperChar s"

definition lowerChar :: "char \<Rightarrow> char" where
  "lowerChar c = (if CHR ''A'' \<le> c \<and> c \<le> CHR ''Z''
                  then char_of (of_char c + (32::nat)) else c)"

definition toLowerCase :: "string \<Rightarrow> string" where
  "toLowerCase s = map lowerChar s"

definition isSpace :: "char \<Rightarrow> bool" where
  "isSpace c = (of_char c \<in> {9, 10, 11, 12, 13, 32 :: nat})"

definition trim :: "string \<Rightarrow> string" where
  "trim s = rev (dropWhile isSpace (rev (dropWhile isSpace s)))"

fun startsWith :: "string \<Rightarrow> string \<Rightarrow> bool" where
  "startsWith s [] = True"
| "startsWith [] (p # ps) = False"
| "startsWith (c # cs) (p # ps) = (c = p \<and> startsWith cs ps)"

text \<open>\<open>s.includes(p)\<close> as \<open>includesStr s p\<close>: \<open>p\<close> occurs in \<open>s\<close> as a contiguous substring.\<close>

fun includesStr :: "string \<Rightarrow> string \<Rightarrow> bool" where
  "includesStr [] p = (p = [])"
| "includesStr (c # cs) p = (startsWith (c # cs) p \<or> includesStr cs p)"

text \<open>
  \<open>a.localeCompare(b)\<close> returns a negative number, zero or a positive number. Its
  collation belongs to the JavaScript runtime and is not the code-unit order of the
  relational operators, so it is not defined here: every function that calls
  \<open>localeCompare\<close> takes it as its first parameter, of type \<open>collation\<close>.
\<close>

type_synonym collation = "string \<Rightarrow> string \<Rightarrow> int"

text \<open>\<open>normalizeDay\<close> of \<^verbatim>\<open>Helpers.js\<close>; the empty string is falsy and yields \<open>""\<close>.\<close>

definition normalizeDay :: "string \<Rightarrow> string" where
  "normalizeDay d = (if d \<noteq> [] then take 3 (toUpperCase d) else [])"

section \<open>Rules and winner selection (Resolver.js)\<close>

text \<open>
  The \<open>Rule\<close> objects that \<open>parseRules\<close> builds and the resolver reads. The priority is
  \<open>Number(cell) || 0\<close>; it is kept as an integer.
\<close>

record rule =
  r_id :: string
  r_type :: string
  r_start :: string
  r_end :: string
  r_shift :: string
  r_wo1 :: string
  r_wo2 :: string
  r_freq :: string
  r_prio :: int

text \<open>
  The accumulator of the \<open>reduce\<close> in \<open>findWinningRule\<close> is either the placeholder object
  \<^verbatim>\<open>{ prio: -1, id: '' }\<close> or a rule of the list. \<open>w_prio\<close> and \<open>w_id\<close> read the two
  properties the fold and its callers look at.
\<close>

datatype winner = Placeholder | Won rule

fun w_prio :: "winner \<Rightarrow> int" where
  "w_prio Placeholder = -1"
| "w_prio (Won r) = r_prio r"

fun w_id :: "winner \<Rightarrow> string" where
  "w_id Placeholder = []"
| "w_id (Won r) = r_id r"

definition pick :: "collation \<Rightarrow> winner \<Rightarrow> rule \<Rightarrow> winner" where
  "pick localeCompare prev cur =
     (if w_prio prev = -1 then Won cur
      else if r_prio cur > w_prio prev then Won cur
      else if r_prio cur = w_prio prev \<and> localeCompare (r_id cur) (w_id prev) > 0 then Won cur
      else prev)"

definition findWinningRule :: "collation \<Rightarrow> rule list \<Rightarrow> string \<Rightarrow> winner" where
  "findWinningRule localeCompare rules ty =
     foldl (pick localeCompare) Placeholder (filter (\<lambda>r. r_type r = ty) rules)"

text \<open>\<open>audit_inputs\<close>: the sanitation gate applied while the active rules are filtered.\<close>

definition audit_inputs :: "rule \<Rightarrow> bool" where
  "audit_inputs r =
     (if r_type r = ''SHIFT_OVERRIDE'' \<and> (r_shift r = [] \<or> trim (r_shift r) = []) then False
      else if r_type r = ''DAY_PATTERN'' then True
      else True)"

section \<open>The resolver (Resolver.js)\<close>

text \<open>A \<open>Date\<close> object is its epoch time in milliseconds.\<close>

type_synonym jsDate = int

record employee =
  e_id :: string
  e_display :: string
  e_baseShift :: string
  e_wo1 :: string
  e_wo2 :: string

record dayMeta =
  m_obj :: jsDate
  m_str :: string
  m_day :: string

record decisionRow =
  d_base :: string
  d_rule :: string
  d_ph :: string
  d_req :: string
  d_finalStatus :: string
  d_action :: string
  d_reason :: string

text \<open>
  The engine context. \<open>c_ledger\<close> maps a key to the \<open>status\<close> property of the loaded
  ledger object; \<open>c_leaves\<close> maps a key to the leave category cell.
\<close>

record engineContext =
  c_mapping :: "string \<rightharpoonup> string"
  c_matrixIndex :: "string \<rightharpoonup> decisionRow list"
  c_ledger :: "string \<rightharpoonup> string"
  c_leaves :: "string \<rightharpoonup> string"
  c_rules :: "string \<rightharpoonup> rule list"
  c_holidays :: "string set"

record auditRow =
  a_key :: string
  a_display :: string
  a_date :: jsDate
  a_baseStatus :: string
  a_baseShift :: string
  a_ruleInput :: string
  a_leaveInput :: string
  a_phInput :: string
  a_entitlementInput :: string
  a_finalStatus :: string
  a_finalShift :: string
  a_reason :: string
  a_note :: string
  a_finalVal :: real

record resolution =
  res_row :: auditRow
  res_entitlementAction :: string
  res_finalStatus :: string

text \<open>Decimal rendering of the priority inside the template strings of the trace.\<close>

definition digitChar :: "nat \<Rightarrow> char" where
  "digitChar n = char_of (48 + n)"

function showNat :: "nat \<Rightarrow> string" where
  "showNat n = (if n < 10 then [digitChar n] else showNat (n div 10) @ [digitChar (n mod 10)])"
  by pat_completeness auto
termination
  by (relation "measure (\<lambda>n. n)") auto

definition showInt :: "int \<Rightarrow> string" where
  "showInt i = (if i < 0 then CHR ''-'' # showNat (nat (- i)) else showNat (nat i))"

text \<open>\<open>xs.join(sep)\<close>.\<close>

fun joinStr :: "string \<Rightarrow> string list \<Rightarrow> string" where
  "joinStr sep [] = []"
| "joinStr sep [x] = x"
| "joinStr sep (x # y # ys) = x @ sep @ joinStr sep (y # ys)"

text \<open>The mutable locals \<open>isWorkDay\<close>, \<open>currentShift\<close> and \<open>trace\<close> of \<open>resolveEmployeeDay\<close>.\<close>

record resolveState =
  isWorkDay :: bool
  currentShift :: string
  trace :: "string list"

definition baseIsWork :: "employee \<Rightarrow> dayMeta \<Rightarrow> bool" where
  "baseIsWork emp meta =
     (let baseOff = (m_day meta = e_wo1 emp \<or> m_day meta = e_wo2 emp)
      in \<not> baseOff \<and> e_baseShift emp \<noteq> ''OFF'')"

definition baseState :: "employee \<Rightarrow> dayMeta \<Rightarrow> resolveState" where
  "baseState emp meta =
     (let w = baseIsWork emp meta;
          shift = (if w then e_baseShift emp else ''OFF'')
      in \<lparr> isWorkDay = w, currentShift = shift,
           trace = [''[BASE:'' @ (if w then ''WORK'' else ''OFF'') @ '':'' @ shift @ '']''] \<rparr>)"

definition activeRules :: "dayMeta \<Rightarrow> rule list \<Rightarrow> rule list" where
  "activeRules meta rules =
     filter (\<lambda>r. m_str meta \<ge> r_start r \<and> m_str meta \<le> r_end r \<and>
                 (r_freq r = ''ALL'' \<or> includesStr (r_freq r) (m_day meta)) \<and>
                 audit_inputs r) rules"

text \<open>
  Pass 1. The guard \<open>if (winningWO.id)\<close> is false for the placeholder (its id is the empty
  string) and for a rule whose id is empty.
\<close>

definition pass1 ::
  "collation \<Rightarrow> employee \<Rightarrow> dayMeta \<Rightarrow> rule list \<Rightarrow> resolveState \<Rightarrow> resolveState" where
  "pass1 localeCompare emp meta active st =
     (case findWinningRule localeCompare active ''DAY_PATTERN'' of
        Placeholder \<Rightarrow> st
      | Won winningWO \<Rightarrow>
          if r_id winningWO \<noteq> [] then
            (let isRuleOff = (m_day meta = normalizeDay (r_wo1 winningWO) \<or>
                              m_day meta = normalizeDay (r_wo2 winningWO));
                 st1 =
                   (if isRuleOff then st\<lparr> isWorkDay := False, currentShift := ''OFF'' \<rparr>
                    else
                      (let ruleShiftStr = trim (toUpperCase (r_shift winningWO));
                           isInvalidShift = (ruleShiftStr = ''OFF'' \<or> ruleShiftStr = [])
                       in if \<not> isInvalidShift
                          then st\<lparr> isWorkDay := True, currentShift := r_shift winningWO \<rparr>
                          else if currentShift st = ''OFF''
                          then st\<lparr> isWorkDay := True,
                                   currentShift := (if e_baseShift emp \<noteq> ''OFF''
                                                    then e_baseShift emp else ''09:00 - 18:00''),
                                   trace := trace st @ [''[FIX:AppliedFallback]''] \<rparr>
                          else st\<lparr> isWorkDay := True \<rparr>))
             in st1\<lparr> trace := trace st1 @
                   [''[DAY_PATTERN:'' @ r_id winningWO @ '':'' @ currentShift st1 @ '':P'' @
                    showInt (r_prio winningWO) @ '']''] \<rparr>)
          else st)"

text \<open>Pass 2, entered only when the day is currently a work day.\<close>

definition pass2 ::
  "collation \<Rightarrow> employee \<Rightarrow> rule list \<Rightarrow> resolveState \<Rightarrow> resolveState" where
  "pass2 localeCompare emp active st =
     (if isWorkDay st then
        (case findWinningRule localeCompare active ''SHIFT_OVERRIDE'' of
           Placeholder \<Rightarrow> st
         | Won winningSHIFT \<Rightarrow>
             if r_id winningSHIFT \<noteq> [] then
               (let sShift = trim (toUpperCase (r_shift winningSHIFT))
                in if sShift \<noteq> ''OFF'' \<and> sShift \<noteq> []
                   then st\<lparr> currentShift := r_shift winningSHIFT,
                            trace := trace st @
                              [''[SHIFT:'' @ r_id winningSHIFT @ '':'' @ r_shift winningSHIFT @
                               '':P'' @ showInt (r_prio winningSHIFT) @ '']''] \<rparr>
                   else st\<lparr> currentShift := e_baseShift emp,
                            trace := trace st @
                              [''[SHIFT:FALLBACK_BASE:'' @ r_id winningSHIFT @ '']''] \<rparr>)
             else st)
      else st)"

text \<open>\<open>checkMatch\<close> of \<^verbatim>\<open>Helpers.js\<close>.\<close>

definition checkMatch :: "string \<Rightarrow> string \<Rightarrow> bool" where
  "checkMatch c0 v0 =
     (let c = trim (toUpperCase c0); v = trim (toUpperCase v0)
      in if c = ''ANY'' \<or> c = ''IGNORED'' then True
         else if c = ''COMP_DAY'' \<and> (v = ''COMP_DAY'' \<or> v = ''OFF'') then True
         else if c = ''LEAVE'' \<and> v = ''LEAVE'' then True
         else c = v)"

definition matrixKey :: "string \<Rightarrow> string \<Rightarrow> string \<Rightarrow> string \<Rightarrow> string" where
  "matrixKey b r p q = b @ ''|'' @ r @ ''|'' @ p @ ''|'' @ q"

text \<open>The scan of the bucket: the first row that passes \<open>checkMatch\<close> in all four dimensions.\<close>

definition findMatch ::
  "decisionRow list \<Rightarrow> string \<Rightarrow> string \<Rightarrow> string \<Rightarrow> string \<Rightarrow> decisionRow option" where
  "findMatch bucket b r p q =
     List.find (\<lambda>row. checkMatch (d_base row) b \<and> checkMatch (d_rule row) r \<and>
                      checkMatch (d_ph row) p \<and> checkMatch (d_req row) q) bucket"

definition matrixLookup ::
  "(string \<rightharpoonup> decisionRow list) \<Rightarrow> string \<Rightarrow> string \<Rightarrow> string \<Rightarrow> string \<Rightarrow> decisionRow option" where
  "matrixLookup idx b r p q =
     findMatch (case idx (matrixKey b r p q) of None \<Rightarrow> [] | Some bucket \<Rightarrow> bucket) b r p q"

text \<open>
  The inputs of the decision-matrix lookup, as \<open>resolveEmployeeDay\<close> computes them before
  the bucket is scanned: the state after the two passes, the derived flag, the four
  lookup flags, and the leave and entitlement inputs. A leave cell counts only when it is truthy (non-empty).
\<close>

record lookupInputs =
  li_active :: "rule list"
  li_state :: resolveState
  li_derivedFlag :: string
  li_baseFlag :: string
  li_ruleFlag :: string
  li_holidayFlag :: string
  li_reqFlag :: string
  li_leave :: string
  li_entitlement :: string

definition lookupInputs ::
  "collation \<Rightarrow> employee \<Rightarrow> dayMeta \<Rightarrow> engineContext \<Rightarrow> rule list \<Rightarrow> lookupInputs" where
  "lookupInputs localeCompare emp meta ctx rules =
     (let key = e_id emp @ ''|'' @ m_str meta;
          active = activeRules meta rules;
          st = pass2 localeCompare emp active
                 (pass1 localeCompare emp meta active (baseState emp meta));
          derivedFlag = (if isWorkDay st then ''WORK'' else ''OFF'');
          baseFlag = (if baseIsWork emp meta then ''WORK'' else ''OFF'');
          ruleFlag = (if derivedFlag = baseFlag then ''NONE'' else derivedFlag);
          holidayFlag = (if m_str meta \<in> c_holidays ctx then ''TRUE'' else ''FALSE'');
          lv = c_leaves ctx key;
          hasLeave = (case lv of None \<Rightarrow> False | Some l \<Rightarrow> l \<noteq> []);
          leave = (case lv of None \<Rightarrow> ''NONE'' | Some l \<Rightarrow> if l \<noteq> [] then l else ''NONE'');
          led = c_ledger ctx key;
          hasEntitlement =
            (case led of None \<Rightarrow> False | Some s \<Rightarrow> s = ''COMP_DAY'' \<or> s = ''OFF'');
          entitlement =
            (case led of None \<Rightarrow> ''NONE''
             | Some s \<Rightarrow> if s = ''COMP_DAY'' \<or> s = ''OFF'' then s else ''NONE'');
          reqFlag = (if hasLeave then ''LEAVE''
                     else if hasEntitlement then ''COMP_DAY'' else ''NONE'')
      in \<lparr> li_active = active, li_state = st, li_derivedFlag = derivedFlag,
           li_baseFlag = baseFlag, li_ruleFlag = ruleFlag, li_holidayFlag = holidayFlag,
           li_reqFlag = reqFlag, li_leave = leave, li_entitlement = entitlement \<rparr>)"

definition decisionMatch ::
  "collation \<Rightarrow> employee \<Rightarrow> dayMeta \<Rightarrow> engineContext \<Rightarrow> rule list \<Rightarrow> decisionRow option" where
  "decisionMatch localeCompare emp meta ctx rules =
     (let li = lookupInputs localeCompare emp meta ctx rules
      in matrixLookup (c_matrixIndex ctx) (li_baseFlag li) (li_ruleFlag li)
           (li_holidayFlag li) (li_reqFlag li))"

text \<open>The mirror audit; the message starts with the warning sign, here as its UTF-8 bytes.\<close>

definition warningSign :: string where
  "warningSign = map char_of [226, 154, 160, 239, 184, 143 :: nat]"

definition verifyShiftOverride ::
  "collation \<Rightarrow> bool \<Rightarrow> string \<Rightarrow> rule list \<Rightarrow> string option" where
  "verifyShiftOverride localeCompare workDay finalShift active =
     (if \<not> workDay then None
      else
        (case findWinningRule localeCompare active ''SHIFT_OVERRIDE'' of
           Placeholder \<Rightarrow> None
         | Won winningSHIFT \<Rightarrow>
             if r_id winningSHIFT \<noteq> [] \<and> r_shift winningSHIFT \<noteq> [] then
               (if finalShift \<noteq> r_shift winningSHIFT \<and> finalShift \<noteq> ''LEAVE'' \<and>
                   finalShift \<noteq> ''COMP_DAY'' \<and> finalShift \<noteq> ''OFF''
                then Some (warningSign @ '' AUDIT FAIL: Exp '' @ [CHR 0x22] @
                           r_shift winningSHIFT @ [CHR 0x22] @ '' (Rule '' @
                           r_id winningSHIFT @ '') but got '' @ [CHR 0x22] @ finalShift @
                           [CHR 0x22])
                else None)
             else None))"

definition createErrorRow ::
  "employee \<Rightarrow> dayMeta \<Rightarrow> string \<Rightarrow> string \<Rightarrow> string \<Rightarrow> string \<Rightarrow> string \<Rightarrow> string \<Rightarrow> string
     \<Rightarrow> auditRow" where
  "createErrorRow emp meta b bs r l p po err =
     \<lparr> a_key = e_id emp @ ''|'' @ m_str meta,
       a_display = e_display emp,
       a_date = m_obj meta,
       a_baseStatus = b,
       a_baseShift = bs,
       a_ruleInput = r,
       a_leaveInput = l,
       a_phInput = p,
       a_entitlementInput = po,
       a_finalStatus = ''ERROR'',
       a_finalShift = [],
       a_reason = err,
       a_note = ''ERROR_TRACE'',
       a_finalVal = 0 \<rparr>"

definition resolveEmployeeDay ::
  "collation \<Rightarrow> employee \<Rightarrow> dayMeta \<Rightarrow> engineContext \<Rightarrow> rule list \<Rightarrow> resolution" where
  "resolveEmployeeDay localeCompare emp meta ctx rules =
     (let li = lookupInputs localeCompare emp meta ctx rules;
          st = li_state li;
          baseShiftOut = (if baseIsWork emp meta then e_baseShift emp else ''OFF'')
      in case decisionMatch localeCompare emp meta ctx rules of
           None \<Rightarrow>
             \<lparr> res_row = createErrorRow emp meta (li_baseFlag li) baseShiftOut (currentShift st)
                       (li_leave li) (li_holidayFlag li) (li_entitlement li) ''Missing Logic'',
               res_entitlementAction = ''NONE'',
               res_finalStatus = ''ERROR'' \<rparr>
         | Some match \<Rightarrow>
             (let status = (if d_finalStatus match = ''LEAVE'' then li_leave li
                            else d_finalStatus match);
                  finalShift = (if status = ''WORK'' then currentShift st else ''OFF'');
                  finalVal = (if status = ''WORK''
                              then (if currentShift st = ''HAL1'' \<or> currentShift st = ''HAL2''
                                    then 0.5 else 1)
                              else if status = ''COMP_DAY'' then 1 else 0);
                  auditErr = verifyShiftOverride localeCompare (isWorkDay st) finalShift
                               (li_active li);
                  reasonOut = (case auditErr of Some e \<Rightarrow> e | None \<Rightarrow> d_reason match)
              in \<lparr> res_row = \<lparr> a_key = e_id emp @ ''|'' @ m_str meta,
                               a_display = e_display emp,
                               a_date = m_obj meta,
                               a_baseStatus = li_baseFlag li,
                               a_baseShift = baseShiftOut,
                               a_ruleInput = currentShift st,
                               a_leaveInput = li_leave li,
                               a_phInput = li_holidayFlag li,
                               a_entitlementInput = li_entitlement li,
                               a_finalStatus = status,
                               a_finalShift = finalShift,
                               a_reason = reasonOut,
                               a_note = joinStr '' | '' (trace st),
                               a_finalVal = finalVal \<rparr>,
                   res_entitlementAction = d_action match,
                   res_finalStatus = status \<rparr>))"

section \<open>The decision-matrix index (loadContext)\<close>

text \<open>
  A sheet row of the decision matrix is a \<open>decisionRow\<close> of raw cells. \<open>loadContext\<close>
  skips a row whose base cell is empty, upper-cases the cells, and pushes the row into
  the bucket of every key of its expansion.
\<close>

definition decisionRowOf :: "decisionRow \<Rightarrow> decisionRow" where
  "decisionRowOf d =
     \<lparr> d_base = toUpperCase (d_base d),
       d_rule = toUpperCase (d_rule d),
       d_ph = toUpperCase (d_ph d),
       d_req = toUpperCase (if d_req d \<noteq> [] then d_req d else ''NONE''),
       d_finalStatus = toUpperCase (d_finalStatus d),
       d_action = toUpperCase (d_action d),
       d_reason = d_reason d \<rparr>"

definition expandDim :: "string list \<Rightarrow> string \<Rightarrow> string list" where
  "expandDim vals v = (if v = ''ANY'' \<or> v = ''IGNORED'' then vals else [v])"

definition rowKeys :: "decisionRow \<Rightarrow> string list" where
  "rowKeys row =
     concat (map (\<lambda>b. concat (map (\<lambda>r. concat (map (\<lambda>p. map (\<lambda>q. matrixKey b r p q)
         (expandDim [''NONE'', ''COMP_DAY'', ''LEAVE''] (d_req row)))
         (expandDim [''TRUE'', ''FALSE''] (d_ph row))))
         (expandDim [''WORK'', ''OFF'', ''NONE''] (d_rule row))))
         (expandDim [''WORK'', ''OFF''] (d_base row)))"

definition pushRow ::
  "decisionRow \<Rightarrow> (string \<rightharpoonup> decisionRow list) \<Rightarrow> string \<Rightarrow> (string \<rightharpoonup> decisionRow list)" where
  "pushRow row idx k = idx(k \<mapsto> (case idx k of None \<Rightarrow> [] | Some bucket \<Rightarrow> bucket) @ [row])"

definition buildMatrixIndex :: "decisionRow list \<Rightarrow> (string \<rightharpoonup> decisionRow list)" where
  "buildMatrixIndex sheetRows =
     foldl (\<lambda>idx d. if d_base d = [] then idx
                     else (let row = decisionRowOf d in foldl (pushRow row) idx (rowKeys row)))
           Map.empty sheetRows"

section \<open>The rule index (Rules.js)\<close>

text \<open>
  A row of the rules sheet. The date cells are kept as the result of \<open>parseSafeDate\<close>
  (\<open>None\<close> when the cell is empty or does not parse); the priority cell as the result of
  \<open>Number\<close> (\<open>None\<close> for \<open>NaN\<close>); every other cell as its string.
  \<open>Utilities.formatDate\<close> in the spreadsheet's time zone is outside the repository: it is the
  parameter \<open>fmt\<close> of the functions that call \<open>formatDate\<close>.
\<close>

record ruleCells =
  rc_id :: string
  rc_employee :: string
  rc_type :: string
  rc_start :: "jsDate option"
  rc_end :: "jsDate option"
  rc_shift :: string
  rc_wo1 :: string
  rc_wo2 :: string
  rc_freq :: string
  rc_status :: string
  rc_prio :: "int option"

record rulesSheet =
  rs_hasStatus :: bool
  rs_rows :: "ruleCells list"

definition isApproved :: "ruleCells \<Rightarrow> bool" where
  "isApproved c = includesStr (toUpperCase (rc_status c)) ''APPROVED''"

definition ruleEmployee :: "ruleCells \<Rightarrow> string" where
  "ruleEmployee c = toLowerCase (trim (rc_employee c))"

text \<open>The object pushed for a row whose start date \<open>st\<close> parsed.\<close>

definition ruleOf :: "(jsDate \<Rightarrow> string) \<Rightarrow> ruleCells \<Rightarrow> jsDate \<Rightarrow> rule" where
  "ruleOf fmt c st =
     \<lparr> r_id = rc_id c,
       r_type = trim (toUpperCase (if rc_type c \<noteq> [] then rc_type c else ''SHIFT_OVERRIDE'')),
       r_start = fmt st,
       r_end = fmt (case rc_end c of Some e \<Rightarrow> e | None \<Rightarrow> st),
       r_shift = rc_shift c,
       r_wo1 = rc_wo1 c,
       r_wo2 = rc_wo2 c,
       r_freq = toUpperCase (if rc_freq c \<noteq> [] then rc_freq c else ''ALL''),
       r_prio = (case rc_prio c of Some n \<Rightarrow> n | None \<Rightarrow> 0) \<rparr>"

definition collectRule ::
  "(jsDate \<Rightarrow> string) \<Rightarrow> (string \<rightharpoonup> rule list) \<Rightarrow> ruleCells \<Rightarrow> (string \<rightharpoonup> rule list)" where
  "collectRule fmt m c =
     (if isApproved c then
        (case rc_start c of
           None \<Rightarrow> m
         | Some st \<Rightarrow>
             if ruleEmployee c \<noteq> [] then
               m(ruleEmployee c \<mapsto>
                   (case m (ruleEmployee c) of None \<Rightarrow> [] | Some rs \<Rightarrow> rs) @ [ruleOf fmt c st])
             else m)
      else m)"

text \<open>The comparator handed to \<open>rulesArray.sort\<close>.\<close>

definition ruleCompare :: "collation \<Rightarrow> rule \<Rightarrow> rule \<Rightarrow> int" where
  "ruleCompare localeCompare a b =
     (let typeA = (if r_type a = ''DAY_PATTERN'' then 0 else 1);
          typeB = (if r_type b = ''DAY_PATTERN'' then 0 else 1)
      in if typeA \<noteq> typeB then typeA - typeB
         else
           (let freqA = (if r_freq a \<noteq> ''ALL'' then 0 else 1);
                freqB = (if r_freq b \<noteq> ''ALL'' then 0 else 1)
            in if freqA \<noteq> freqB then freqA - freqB
               else if r_prio a \<noteq> r_prio b then r_prio b - r_prio a
               else localeCompare (r_id a) (r_id b)))"

text \<open>
  \<open>Array.prototype.sort\<close> with a comparator is a stable sort: an element moves in front
  of another only when the comparator says it is strictly smaller.
\<close>

fun insertBy :: "('a \<Rightarrow> 'a \<Rightarrow> int) \<Rightarrow> 'a \<Rightarrow> 'a list \<Rightarrow> 'a list" where
  "insertBy cmp x [] = [x]"
| "insertBy cmp x (y # ys) = (if cmp x y \<le> 0 then x # y # ys else y # insertBy cmp x ys)"

definition sortBy :: "('a \<Rightarrow> 'a \<Rightarrow> int) \<Rightarrow> 'a list \<Rightarrow> 'a list" where
  "sortBy cmp xs = foldr (insertBy cmp) xs []"

definition parseRules ::
  "collation \<Rightarrow> (jsDate \<Rightarrow> string) \<Rightarrow> rulesSheet option \<Rightarrow> (string \<rightharpoonup> rule list)" where
  "parseRules localeCompare fmt sh =
     (case sh of
        None \<Rightarrow> Map.empty
      | Some s \<Rightarrow>
          if \<not> rs_hasStatus s then Map.empty
          else (let m = foldl (collectRule fmt) Map.empty (rs_rows s)
                in (\<lambda>employee. map_option (sortBy (ruleCompare localeCompare)) (m employee))))"

section \<open>The entitlement ledger (Ledger.js)\<close>

text \<open>
  The ledger sheet: which of the columns the code looks up are present in the header
  row, and the data rows. A row keeps, for each of those columns, the cell as the code
  reads it: the employee, activation, entitlement-type and note cells as strings, the
  entitlement-date cell as the result of \<open>parseSafeDate\<close>. A column that is absent from
  the header is never read or written.
\<close>

record ledgerHeaders =
  h_employee :: bool
  h_entitlementDate :: bool
  h_activation :: bool
  h_entitlement :: bool
  h_scriptNote :: bool
  h_timestamp :: bool

record ledgerRow =
  lr_employee :: string
  lr_entitlementDate :: "jsDate option"
  lr_activation :: string
  lr_entitlement :: string
  lr_scriptNote :: string
  lr_timestamp :: "jsDate option"

record ledgerSheet =
  ls_headers :: ledgerHeaders
  ls_rows :: "ledgerRow list"

record grantIntent =
  g_employee :: string
  g_date :: jsDate

record revokeIntent =
  v_employee :: string
  v_dateStr :: string
  v_reason :: string

text \<open>
  The key both operations compute for a data row; a row with an empty employee or an
  unparsable date has none (\<open>if (l && dt)\<close>, \<open>if (!l || !dt) continue\<close>).
\<close>

definition rowKey :: "(jsDate \<Rightarrow> string) \<Rightarrow> ledgerRow \<Rightarrow> string option" where
  "rowKey fmt r =
     (let l = toLowerCase (trim (lr_employee r))
      in case lr_entitlementDate r of
           None \<Rightarrow> None
         | Some dt \<Rightarrow> if l \<noteq> [] then Some (l @ ''|'' @ fmt dt) else None)"

definition existingKeys :: "(jsDate \<Rightarrow> string) \<Rightarrow> ledgerSheet \<Rightarrow> string set" where
  "existingKeys fmt sh =
     (if h_employee (ls_headers sh) \<and> h_entitlementDate (ls_headers sh)
      then set (List.map_filter (rowKey fmt) (ls_rows sh)) else {})"

definition grantKey :: "(jsDate \<Rightarrow> string) \<Rightarrow> grantIntent \<Rightarrow> string" where
  "grantKey fmt g = toLowerCase (trim (g_employee g)) @ ''|'' @ fmt (g_date g)"

text \<open>The row built for a grant: every cell empty, then the cells of the present columns.\<close>

definition grantRow :: "ledgerHeaders \<Rightarrow> jsDate \<Rightarrow> grantIntent \<Rightarrow> ledgerRow" where
  "grantRow hs now g =
     \<lparr> lr_employee = (if h_employee hs then g_employee g else []),
       lr_entitlementDate = (if h_entitlementDate hs then Some (g_date g) else None),
       lr_activation = (if h_activation hs then ''Active'' else []),
       lr_entitlement = (if h_entitlement hs then ''COMP_DAY'' else []),
       lr_scriptNote = [],
       lr_timestamp = (if h_timestamp hs then Some now else None) \<rparr>"

text \<open>The \<open>forEach\<close> over the grants, threading the set \<open>existing\<close>; the result is \<open>adds\<close>.\<close>

fun grantAdds ::
  "(jsDate \<Rightarrow> string) \<Rightarrow> ledgerHeaders \<Rightarrow> jsDate \<Rightarrow> string set \<Rightarrow> grantIntent list
     \<Rightarrow> ledgerRow list" where
  "grantAdds fmt hs now existing [] = []"
| "grantAdds fmt hs now existing (g # gs) =
     (if grantKey fmt g \<notin> existing
      then grantRow hs now g # grantAdds fmt hs now (insert (grantKey fmt g) existing) gs
      else grantAdds fmt hs now existing gs)"

text \<open>
  \<open>grantEntitlements\<close>: the sheet after the call (\<open>None\<close>: the database has no ledger
  sheet). \<open>isDryRun\<close> is \<open>CONFIG.isDryRun\<close>, \<open>now\<close> the clock.
\<close>

definition grantEntitlements ::
  "bool \<Rightarrow> (jsDate \<Rightarrow> string) \<Rightarrow> jsDate \<Rightarrow> ledgerSheet option \<Rightarrow> grantIntent list
     \<Rightarrow> ledgerSheet option" where
  "grantEntitlements isDryRun fmt now sheet grants =
     (if isDryRun then sheet
      else
        (case sheet of
           None \<Rightarrow> None
         | Some sh \<Rightarrow>
             (let adds = grantAdds fmt (ls_headers sh) now (existingKeys fmt sh) grants
              in if adds \<noteq> [] then Some (sh\<lparr> ls_rows := ls_rows sh @ adds \<rparr>) else Some sh)))"

definition revokeKey :: "revokeIntent \<Rightarrow> string" where
  "revokeKey v = toLowerCase (trim (v_employee v)) @ ''|'' @ v_dateStr v"

text \<open>\<open>new Map(pairs)\<close>: a later pair with the same key replaces an earlier one.\<close>

definition revokeMap :: "revokeIntent list \<Rightarrow> (string \<rightharpoonup> string)" where
  "revokeMap revocations = map_of (rev (map (\<lambda>v. (revokeKey v, v_reason v)) revocations))"

definition revokeHits :: "(jsDate \<Rightarrow> string) \<Rightarrow> (string \<rightharpoonup> string) \<Rightarrow> ledgerRow \<Rightarrow> bool" where
  "revokeHits fmt rmap r =
     (case rowKey fmt r of
        None \<Rightarrow> False
      | Some key \<Rightarrow> rmap key \<noteq> None \<and> lr_activation r \<noteq> ''Inactive'')"

text \<open>One iteration of the loop over the data rows, on the two column buffers.\<close>

definition revokeRow ::
  "(jsDate \<Rightarrow> string) \<Rightarrow> ledgerHeaders \<Rightarrow> (string \<rightharpoonup> string) \<Rightarrow> ledgerRow \<Rightarrow> ledgerRow" where
  "revokeRow fmt hs rmap r =
     (case rowKey fmt r of
        None \<Rightarrow> r
      | Some key \<Rightarrow>
          if rmap key \<noteq> None \<and> lr_activation r \<noteq> ''Inactive'' then
            r\<lparr> lr_activation := ''Inactive'',
               lr_scriptNote :=
                 (if h_scriptNote hs
                  then (if rmap key = Some ''COMP_DAY'' then ''Comp Day Consumed''
                        else ''Revoked: Work/Rule Change'')
                  else lr_scriptNote r) \<rparr>
          else r)"

definition revokeLedger ::
  "bool \<Rightarrow> (jsDate \<Rightarrow> string) \<Rightarrow> ledgerSheet option \<Rightarrow> revokeIntent list \<Rightarrow> ledgerSheet option" where
  "revokeLedger isDryRun fmt sheet revocations =
     (if isDryRun then sheet
      else
        (case sheet of
           None \<Rightarrow> None
         | Some sh \<Rightarrow>
             if \<not> (h_employee (ls_headers sh) \<and> h_entitlementDate (ls_headers sh) \<and>
                   h_activation (ls_headers sh))
             then Some sh
             else
               (let rmap = revokeMap revocations;
                    hasChanges = list_ex (revokeHits fmt rmap) (ls_rows sh)
                in if hasChanges
                   then Some (sh\<lparr> ls_rows := map (revokeRow fmt (ls_headers sh) rmap) (ls_rows sh) \<rparr>)
                   else Some sh)))"

text \<open>A run of ledger operations against one sheet, as \<open>processWorkspace\<close> issues them.\<close>

datatype ledgerOp = Grant jsDate "grantIntent list" | Revoke "revokeIntent list"

fun applyOp :: "bool \<Rightarrow> (jsDate \<Rightarrow> string) \<Rightarrow> ledgerSheet option \<Rightarrow> ledgerOp \<Rightarrow> ledgerSheet option" where
  "applyOp isDryRun fmt sheet (Grant now grants) = grantEntitlements isDryRun fmt now sheet grants"
| "applyOp isDryRun fmt sheet (Revoke revocations) = revokeLedger isDryRun fmt sheet revocations"

definition applyOps ::
  "bool \<Rightarrow> (jsDate \<Rightarrow> string) \<Rightarrow> ledgerSheet option \<Rightarrow> ledgerOp list \<Rightarrow> ledgerSheet option" where
  "applyOps isDryRun fmt sheet ops = foldl (applyOp isDryRun fmt) sheet ops"

section \<open>Notions used to state the properties\<close>



text \<open>
  The wildcard reading of a decision row, in the words of the specification: a dimension
  that is \<open>ANY\<close> or \<open>IGNORED\<close> covers every value, a concrete dimension covers its own
  value. \<open>decisionRows\<close> are the rows \<open>loadContext\<close> indexes, in sheet order;
  \<open>literalCells\<close> writes the looked-up value into every wildcard cell of a sheet row and
  \<open>literalRow\<close> does the same on an indexed row; \<open>outputs\<close> are the final status, the
  entitlement action and the reason of a row.
\<close>

definition wildcard :: "string \<Rightarrow> bool" where
  "wildcard c = (c = ''ANY'' \<or> c = ''IGNORED'')"

definition dimCovers :: "string \<Rightarrow> string \<Rightarrow> bool" where
  "dimCovers c v = (wildcard c \<or> c = v)"

definition rowCovers :: "decisionRow \<Rightarrow> string \<Rightarrow> string \<Rightarrow> string \<Rightarrow> string \<Rightarrow> bool" where
  "rowCovers row b r p q =
     (dimCovers (d_base row) b \<and> dimCovers (d_rule row) r \<and> dimCovers (d_ph row) p \<and>
      dimCovers (d_req row) q)"

definition decisionRows :: "decisionRow list \<Rightarrow> decisionRow list" where
  "decisionRows sheetRows = map decisionRowOf (filter (\<lambda>d. d_base d \<noteq> []) sheetRows)"

definition literalCells :: "string \<Rightarrow> string \<Rightarrow> string \<Rightarrow> string \<Rightarrow> decisionRow \<Rightarrow> decisionRow" where
  "literalCells b r p q d =
     d\<lparr> d_base := (if wildcard (toUpperCase (d_base d)) then b else d_base d),
        d_rule := (if wildcard (toUpperCase (d_rule d)) then r else d_rule d),
        d_ph := (if wildcard (toUpperCase (d_ph d)) then p else d_ph d),
        d_req := (if wildcard (toUpperCase (d_req d)) then q else d_req d) \<rparr>"

definition outputs :: "decisionRow \<Rightarrow> string \<times> string \<times> string" where
  "outputs row = (d_finalStatus row, d_action row, d_reason row)"

definition bucketOf :: "(string \<rightharpoonup> decisionRow list) \<Rightarrow> string \<Rightarrow> decisionRow list" where
  "bucketOf idx k = (case idx k of None \<Rightarrow> [] | Some bucket \<Rightarrow> bucket)"

definition literalRow :: "string \<Rightarrow> string \<Rightarrow> string \<Rightarrow> string \<Rightarrow> decisionRow \<Rightarrow> decisionRow" where
  "literalRow b r p q row =
     row\<lparr> d_base := (if wildcard (d_base row) then b else d_base row),
          d_rule := (if wildcard (d_rule row) then r else d_rule row),
          d_ph := (if wildcard (d_ph row) then p else d_ph row),
          d_req := (if wildcard (d_req row) then q else d_req row) \<rparr>"

text \<open>
  The rule list of an employee in a rule index (empty when the employee has no entry),
  and the order the comparator of \<open>parseRules\<close> induces: \<open>ruleBefore a b\<close> compares, in this
  order, the type rank (DAY_PATTERN first), the frequency rank (a frequency other than
  \<open>ALL\<close> first), the priority (higher first) and the id (lesser in the collation first).
\<close>

definition ruleList :: "(string \<rightharpoonup> rule list) \<Rightarrow> string \<Rightarrow> rule list" where
  "ruleList m e = (case m e of None \<Rightarrow> [] | Some rs \<Rightarrow> rs)"

text \<open>The rules \<open>parseRules\<close> collects for one employee, in sheet order, before sorting.\<close>

definition collected :: "(jsDate \<Rightarrow> string) \<Rightarrow> ruleCells list \<Rightarrow> string \<Rightarrow> rule list" where
  "collected fmt cells e =
     concat (map (\<lambda>c. case rc_start c of
                          None \<Rightarrow> []
                        | Some st \<Rightarrow> if isApproved c \<and> ruleEmployee c \<noteq> [] \<and> ruleEmployee c = e
                                     then [ruleOf fmt c st] else []) cells)"




text \<open>
  The rows of a possibly missing sheet, the keys of its rows, and the two cells a key is
  computed from.
\<close>

definition rowsOf :: "ledgerSheet option \<Rightarrow> ledgerRow list" where
  "rowsOf sheet = (case sheet of None \<Rightarrow> [] | Some sh \<Rightarrow> ls_rows sh)"

definition keysOf :: "(jsDate \<Rightarrow> string) \<Rightarrow> ledgerRow list \<Rightarrow> string list" where
  "keysOf fmt rws = List.map_filter (rowKey fmt) rws"

definition keyCells :: "ledgerRow \<Rightarrow> string \<times> jsDate option" where
  "keyCells r = (lr_employee r, lr_entitlementDate r)"




text \<open>
  The (employee, entitlement-date) key of a ledger entry, for every row of the sheet,
  also one that \<open>rowKey\<close> passes over: the normalised employee and the date string.
\<close>

definition entryKey :: "(jsDate \<Rightarrow> string) \<Rightarrow> ledgerRow \<Rightarrow> string \<times> string option" where
  "entryKey fmt r =
     (toLowerCase (trim (lr_employee r)), map_option fmt (lr_entitlementDate r))"



section \<open>Example data\<close>

text \<open>
  A collation for the examples: the code-unit order. On the ids of the examples, which
  differ in a digit only, it gives the sign every collation gives that orders the digits
  by their value.
\<close>

definition codeUnitCompare :: collation where
  "codeUnitCompare a b = (if a < b then -1 else if a = b then 0 else 1)"

definition mkRule :: "string \<Rightarrow> string \<Rightarrow> int \<Rightarrow> string \<Rightarrow> rule" where
  "mkRule i ty p sh =
     \<lparr> r_id = i, r_type = ty, r_start = ''2025-01-01'', r_end = ''2025-12-31'', r_shift = sh,
       r_wo1 = [], r_wo2 = [], r_freq = ''ALL'', r_prio = p \<rparr>"


definition exEmp :: employee where
  "exEmp = \<lparr> e_id = ''emp-1042'', e_display = ''EMP-1042'', e_baseShift = ''09:00 - 18:00'',
            e_wo1 = ''SAT'', e_wo2 = ''SUN'' \<rparr>"

definition exMeta :: dayMeta where
  "exMeta = \<lparr> m_obj = 1741564800000, m_str = ''2025-03-10'', m_day = ''MON'' \<rparr>"

definition exShiftRules :: "rule list" where
  "exShiftRules = [mkRule ''R-010'' ''SHIFT_OVERRIDE'' 3 '' off '',
                   mkRule ''R-002'' ''SHIFT_OVERRIDE'' 1 ''10:00 - 19:00'']"

definition exCtx :: engineContext where
  "exCtx = \<lparr> c_mapping = Map.empty,
            c_matrixIndex = [''WORK|NONE|FALSE|NONE'' \<mapsto>
               [\<lparr> d_base = ''WORK'', d_rule = ''NONE'', d_ph = ''FALSE'', d_req = ''NONE'',
                  d_finalStatus = ''WORK'', d_action = ''NONE'',
                  d_reason = ''Regular work day'' \<rparr>]],
            c_ledger = Map.empty, c_leaves = Map.empty, c_rules = Map.empty,
            c_holidays = {''2025-03-10''} \<rparr>"

definition mkDecision ::
  "string \<Rightarrow> string \<Rightarrow> string \<Rightarrow> string \<Rightarrow> string \<Rightarrow> string \<Rightarrow> string \<Rightarrow> decisionRow" where
  "mkDecision b r p q f a t =
     \<lparr> d_base = b, d_rule = r, d_ph = p, d_req = q, d_finalStatus = f, d_action = a,
       d_reason = t \<rparr>"

definition exMatrix :: "decisionRow list" where
  "exMatrix =
     [mkDecision ''WORK'' ''NONE'' ''FALSE'' [] ''WORK'' ''NONE'' ''Regular work day'',
      mkDecision [] ''NONE'' ''FALSE'' ''LEAVE'' ''OFF'' ''NONE'' ''Blank line'',
      mkDecision ''Work'' ''None'' ''False'' ''Leave'' ''Leave'' ''None'' ''Approved leave'',
      mkDecision ''Any'' ''ANY'' ''ignored'' ''LEAVE'' ''LEAVE'' ''NONE''
        ''Leave takes precedence over all'']"

definition exFmt :: "jsDate \<Rightarrow> string" where
  "exFmt d = (if d = 1740787200000 then ''2025-03-01''
              else if d = 1743379200000 then ''2025-03-31'' else ''2025-03-10'')"

definition mkCells :: "string \<Rightarrow> string \<Rightarrow> string \<Rightarrow> string \<Rightarrow> int \<Rightarrow> ruleCells" where
  "mkCells i e ty sh p =
     \<lparr> rc_id = i, rc_employee = e, rc_type = ty, rc_start = Some 1740787200000,
       rc_end = Some 1743379200000, rc_shift = sh, rc_wo1 = [], rc_wo2 = [], rc_freq = [],
       rc_status = ''Approved'', rc_prio = Some p \<rparr>"

definition exRuleSheet :: rulesSheet where
  "exRuleSheet =
     \<lparr> rs_hasStatus = True,
       rs_rows = [mkCells ''R-002'' ''EMP-1042 '' ''Shift_Override'' [] 3,
                  mkCells ''R-001'' ''emp-1042'' [] ''10:00 - 19:00'' 3] \<rparr>"

definition exParsed :: "string \<Rightarrow> string \<Rightarrow> rule" where
  "exParsed i sh =
     \<lparr> r_id = i, r_type = ''SHIFT_OVERRIDE'', r_start = ''2025-03-01'', r_end = ''2025-03-31'',
       r_shift = sh, r_wo1 = [], r_wo2 = [], r_freq = ''ALL'', r_prio = 3 \<rparr>"



definition allHeaders :: ledgerHeaders where
  "allHeaders = \<lparr> h_employee = True, h_entitlementDate = True, h_activation = True,
                  h_entitlement = True, h_scriptNote = True, h_timestamp = False \<rparr>"

definition mkLedgerRow :: "string \<Rightarrow> jsDate \<Rightarrow> string \<Rightarrow> string \<Rightarrow> ledgerRow" where
  "mkLedgerRow e d act note =
     \<lparr> lr_employee = e, lr_entitlementDate = Some d, lr_activation = act,
       lr_entitlement = ''COMP_DAY'', lr_scriptNote = note, lr_timestamp = None \<rparr>"

definition exLedger :: ledgerSheet where
  "exLedger =
     \<lparr> ls_headers = allHeaders,
       ls_rows = [mkLedgerRow ''emp-1042'' 1740787200000 ''Active'' [],
                  mkLedgerRow ''emp-2087'' 1743379200000 ''Inactive'' ''Comp Day Consumed''] \<rparr>"



text \<open>
  Two runs over a roster whose employee cell is a blank: \<open>processRoster\<close> trims the cell
  and passes the empty string as the employee of the intent.
\<close>

definition exBlankOps :: "ledgerOp list" where
  "exBlankOps =
     [Grant 1741564800000 [\<lparr> g_employee = [], g_date = 1741564800000 \<rparr>],
      Grant 1741564800001 [\<lparr> g_employee = [], g_date = 1741564800000 \<rparr>]]"

definition exOps :: "ledgerOp list" where
  "exOps =
     [Grant 1741564800000
        [\<lparr> g_employee = ''EMP-1042'', g_date = 1740787200000 \<rparr>,
         \<lparr> g_employee = ''EMP-3001'', g_date = 1741564800000 \<rparr>,
         \<lparr> g_employee = ''emp-3001 '', g_date = 1741564800000 \<rparr>],
      Revoke
        [\<lparr> v_employee = ''EMP-1042'', v_dateStr = ''2025-03-01'', v_reason = ''COMP_DAY'' \<rparr>,
         \<lparr> v_employee = ''EMP-2087'', v_dateStr = ''2025-03-31'', v_reason = ''WORK'' \<rparr>],
      Grant 1741564800000
        [\<lparr> g_employee = ''EMP-1042'', g_date = 1740787200000 \<rparr>]]"

section \<open>Winner selection\<close>



















text \<open>
  C1. The priority law as stated, for every pair of rules of one kind, does not hold of
  \<open>findWinningRule\<close>: of two DAY_PATTERN rules with priorities \<open>-1\<close> and \<open>-2\<close> the one
  listed first loses, whichever it is, because a rule of priority \<open>-1\<close> is taken for
  the placeholder. Listed as \<open>[A, B]\<close> the rule of priority \<open>-2\<close> wins against the
  higher priority \<open>-1\<close>; listed as \<open>[B, A]\<close> the other one wins. The ids are never
  compared, so this holds for every collation.
\<close>

theorem C1_priority_law_broken_at_minus_one:
  "r_prio (mkRule ''A'' ''DAY_PATTERN'' (-1) []) > r_prio (mkRule ''B'' ''DAY_PATTERN'' (-2) []) \<and>
   findWinningRule lc [mkRule ''A'' ''DAY_PATTERN'' (-1) [], mkRule ''B'' ''DAY_PATTERN'' (-2) []]
     ''DAY_PATTERN'' = Won (mkRule ''B'' ''DAY_PATTERN'' (-2) []) \<and>
   findWinningRule lc [mkRule ''B'' ''DAY_PATTERN'' (-2) [], mkRule ''A'' ''DAY_PATTERN'' (-1) []]
     ''DAY_PATTERN'' = Won (mkRule ''A'' ''DAY_PATTERN'' (-1) [])"
  by (simp add: findWinningRule_def mkRule_def pick_def)

section \<open>The two passes and the lookup\<close>

lemma pass2_isWorkDay: "isWorkDay (pass2 lc emp active st) = isWorkDay st"
  by (simp add: pass2_def Let_def split: winner.splits)

lemma pass2_fallback:
  assumes "isWorkDay st" and "findWinningRule lc active ''SHIFT_OVERRIDE'' = Won w" and "r_id w \<noteq> []"
    and "trim (toUpperCase (r_shift w)) = [] \<or> trim (toUpperCase (r_shift w)) = ''OFF''"
  shows "currentShift (pass2 lc emp active st) = e_baseShift emp"
  using assms by (auto simp add: pass2_def Let_def)

lemma li_state_eq:
  "li_state (lookupInputs lc emp meta ctx rules) =
     pass2 lc emp (activeRules meta rules)
       (pass1 lc emp meta (activeRules meta rules) (baseState emp meta))"
  by (simp add: lookupInputs_def Let_def)

lemma li_derivedFlag_eq:
  "li_derivedFlag (lookupInputs lc emp meta ctx rules) =
     (if isWorkDay (li_state (lookupInputs lc emp meta ctx rules)) then ''WORK'' else ''OFF'')"
  by (simp add: lookupInputs_def Let_def)

text \<open>
  C2. Whenever the state after base determination and Pass 1 is a work day, the state
  after Pass 2, which is the state the lookup flags are computed from, is still a work
  day and the derived flag is \<open>WORK\<close>. A winning SHIFT_OVERRIDE rule whose shift
  value is empty or \<open>OFF\<close> after upper-casing and trimming only sets the current shift
  to the employee's base shift.
\<close>

theorem C2_shift_override_cannot_force_off:
  assumes work: "isWorkDay (pass1 lc emp meta (activeRules meta rules) (baseState emp meta))"
  shows "isWorkDay (li_state (lookupInputs lc emp meta ctx rules)) \<and>
         li_derivedFlag (lookupInputs lc emp meta ctx rules) = ''WORK'' \<and>
         (\<forall>w. findWinningRule lc (activeRules meta rules) ''SHIFT_OVERRIDE'' = Won w \<and> r_id w \<noteq> [] \<and>
              (trim (toUpperCase (r_shift w)) = [] \<or> trim (toUpperCase (r_shift w)) = ''OFF'') \<longrightarrow>
              currentShift (li_state (lookupInputs lc emp meta ctx rules)) = e_baseShift emp)"
proof -
  have a: "isWorkDay (li_state (lookupInputs lc emp meta ctx rules))"
    using work by (simp add: li_state_eq pass2_isWorkDay)
  then have b: "li_derivedFlag (lookupInputs lc emp meta ctx rules) = ''WORK''"
    by (simp add: li_derivedFlag_eq)
  have c: "\<forall>w. findWinningRule lc (activeRules meta rules) ''SHIFT_OVERRIDE'' = Won w \<and> r_id w \<noteq> [] \<and>
              (trim (toUpperCase (r_shift w)) = [] \<or> trim (toUpperCase (r_shift w)) = ''OFF'') \<longrightarrow>
              currentShift (li_state (lookupInputs lc emp meta ctx rules)) = e_baseShift emp"
    using work by (auto simp add: li_state_eq intro: pass2_fallback)
  show ?thesis using a b c by blast
qed

theorem C2_shift_override_cannot_force_off_witness:
  "isWorkDay (pass1 codeUnitCompare exEmp exMeta (activeRules exMeta exShiftRules) (baseState exEmp exMeta)) \<and>
   findWinningRule codeUnitCompare (activeRules exMeta exShiftRules) ''SHIFT_OVERRIDE'' =
     Won (mkRule ''R-010'' ''SHIFT_OVERRIDE'' 3 '' off '') \<and>
   trim (toUpperCase (r_shift (mkRule ''R-010'' ''SHIFT_OVERRIDE'' 3 '' off ''))) = ''OFF'' \<and>
   li_derivedFlag (lookupInputs codeUnitCompare exEmp exMeta exCtx exShiftRules) = ''WORK'' \<and>
   currentShift (li_state (lookupInputs codeUnitCompare exEmp exMeta exCtx exShiftRules)) = ''09:00 - 18:00''"
proof -
  have w: "isWorkDay (pass1 codeUnitCompare exEmp exMeta (activeRules exMeta exShiftRules) (baseState exEmp exMeta))"
    by code_simp
  have f: "findWinningRule codeUnitCompare (activeRules exMeta exShiftRules) ''SHIFT_OVERRIDE'' =
             Won (mkRule ''R-010'' ''SHIFT_OVERRIDE'' 3 '' off '')"
    by code_simp
  have t: "trim (toUpperCase (r_shift (mkRule ''R-010'' ''SHIFT_OVERRIDE'' 3 '' off ''))) = ''OFF''"
    by code_simp
  have i: "r_id (mkRule ''R-010'' ''SHIFT_OVERRIDE'' 3 '' off '') \<noteq> []"
    by (simp add: mkRule_def)
  have b: "e_baseShift exEmp = ''09:00 - 18:00''"
    by (simp add: exEmp_def)
  from C2_shift_override_cannot_force_off[OF w, of exCtx] f t i b
  have "li_derivedFlag (lookupInputs codeUnitCompare exEmp exMeta exCtx exShiftRules) = ''WORK'' \<and>
        currentShift (li_state (lookupInputs codeUnitCompare exEmp exMeta exCtx exShiftRules)) = ''09:00 - 18:00''"
    by metis
  then show ?thesis using w f t by blast
qed

text \<open>
  C3. When the scan of the bucket for the computed four-flag key finds no matching row,
  \<open>resolveEmployeeDay\<close> returns a result (the model has no failing branch on this path)
  whose final status is \<open>ERROR\<close> and whose entitlement action is \<open>NONE\<close>; its audit
  row has status \<open>ERROR\<close>, an empty final shift, the reason \<open>Missing Logic\<close> and
  weight 0.
\<close>

theorem C3_missing_logic_is_an_error_row:
  assumes "decisionMatch lc emp meta ctx rules = None"
  shows "res_finalStatus (resolveEmployeeDay lc emp meta ctx rules) = ''ERROR'' \<and>
         res_entitlementAction (resolveEmployeeDay lc emp meta ctx rules) = ''NONE'' \<and>
         a_finalStatus (res_row (resolveEmployeeDay lc emp meta ctx rules)) = ''ERROR'' \<and>
         a_finalShift (res_row (resolveEmployeeDay lc emp meta ctx rules)) = [] \<and>
         a_reason (res_row (resolveEmployeeDay lc emp meta ctx rules)) = ''Missing Logic'' \<and>
         a_finalVal (res_row (resolveEmployeeDay lc emp meta ctx rules)) = 0"
  using assms by (simp add: resolveEmployeeDay_def Let_def createErrorRow_def)

theorem C3_missing_logic_is_an_error_row_witness:
  "decisionMatch codeUnitCompare exEmp exMeta exCtx exShiftRules = None \<and>
   li_holidayFlag (lookupInputs codeUnitCompare exEmp exMeta exCtx exShiftRules) = ''TRUE'' \<and>
   res_finalStatus (resolveEmployeeDay codeUnitCompare exEmp exMeta exCtx exShiftRules) = ''ERROR'' \<and>
   res_entitlementAction (resolveEmployeeDay codeUnitCompare exEmp exMeta exCtx exShiftRules) = ''NONE'' \<and>
   a_reason (res_row (resolveEmployeeDay codeUnitCompare exEmp exMeta exCtx exShiftRules)) = ''Missing Logic'' \<and>
   a_finalVal (res_row (resolveEmployeeDay codeUnitCompare exEmp exMeta exCtx exShiftRules)) = 0"
proof -
  have n: "decisionMatch codeUnitCompare exEmp exMeta exCtx exShiftRules = None"
    by code_simp
  have h: "li_holidayFlag (lookupInputs codeUnitCompare exEmp exMeta exCtx exShiftRules) = ''TRUE''"
    by (simp add: lookupInputs_def Let_def exMeta_def exCtx_def)
  show ?thesis
    using C3_missing_logic_is_an_error_row[OF n] n h by simp
qed

section \<open>The decision-matrix lookup\<close>


lemma bucketOf_pushRow:
  "bucketOf (pushRow row idx k) K = bucketOf idx K @ (if k = K then [row] else [])"
  by (simp add: bucketOf_def pushRow_def)

lemma bucketOf_foldl_pushRow:
  "bucketOf (foldl (pushRow row) idx ks) K = bucketOf idx K @ replicate (count_list ks K) row"
proof (induction ks arbitrary: idx)
  case Nil
  show ?case by simp
next
  case (Cons k ks)
  show ?case
    by (simp add: Cons.IH bucketOf_pushRow replicate_app_Cons_same)
qed

lemma bucketOf_foldl_rows:
  "bucketOf (foldl (\<lambda>idx row. foldl (pushRow row) idx (rowKeys row)) idx0 rows) K =
     bucketOf idx0 K @ concat (map (\<lambda>row. replicate (count_list (rowKeys row) K) row) rows)"
proof (induction rows arbitrary: idx0)
  case Nil
  show ?case by simp
next
  case (Cons row rows)
  show ?case
    by (simp add: Cons.IH bucketOf_foldl_pushRow)
qed

lemma buildMatrixIndex_rows:
  "foldl (\<lambda>idx d. if d_base d = [] then idx
                   else (let row = decisionRowOf d in foldl (pushRow row) idx (rowKeys row)))
         idx0 sheetRows =
   foldl (\<lambda>idx row. foldl (pushRow row) idx (rowKeys row)) idx0 (decisionRows sheetRows)"
  by (induction sheetRows arbitrary: idx0) (simp_all add: decisionRows_def Let_def)

lemma bucketOf_buildMatrixIndex:
  "bucketOf (buildMatrixIndex sheetRows) K =
     concat (map (\<lambda>row. replicate (count_list (rowKeys row) K) row) (decisionRows sheetRows))"
proof -
  have e: "bucketOf Map.empty K = []"
    by (simp add: bucketOf_def)
  show ?thesis
    unfolding buildMatrixIndex_def buildMatrixIndex_rows bucketOf_foldl_rows e by simp
qed

lemma find_replicate_append:
  "List.find P (replicate n x @ ys) = (if 0 < n \<and> P x then Some x else List.find P ys)"
  by (induction n) auto

lemma find_concat_replicate:
  "List.find P (concat (map (\<lambda>x. replicate (n x) x) xs)) = List.find (\<lambda>x. 0 < n x \<and> P x) xs"
  by (induction xs) (simp_all add: find_replicate_append)


lemma sep_split:
  "c \<notin> set a \<Longrightarrow> c \<notin> set a' \<Longrightarrow> a @ c # x = a' @ c # y \<Longrightarrow> a = a' \<and> x = y"
proof (induction a arbitrary: a')
  case Nil
  then show ?case by (cases a') auto
next
  case (Cons h t)
  then show ?case by (cases a') auto
qed

lemma matrixKey_Cons:
  "matrixKey b r p q = b @ CHR ''|'' # (r @ CHR ''|'' # (p @ CHR ''|'' # q))"
  by (simp add: matrixKey_def)

lemma count_matrixKey:
  "count_list (matrixKey b r p q) (CHR ''|'') =
     3 + count_list b (CHR ''|'') + count_list r (CHR ''|'') + count_list p (CHR ''|'') +
     count_list q (CHR ''|'')"
  by (simp add: matrixKey_Cons count_list_append)

lemma matrixKey_inj:
  assumes free: "CHR ''|'' \<notin> set b" "CHR ''|'' \<notin> set r" "CHR ''|'' \<notin> set p" "CHR ''|'' \<notin> set q"
    and eq: "matrixKey b' r' p' q' = matrixKey b r p q"
  shows "b' = b \<and> r' = r \<and> p' = p \<and> q' = q"
proof -
  have "count_list (matrixKey b' r' p' q') (CHR ''|'') = count_list (matrixKey b r p q) (CHR ''|'')"
    using eq by simp
  then have z: "count_list b' (CHR ''|'') = 0" "count_list r' (CHR ''|'') = 0"
    "count_list p' (CHR ''|'') = 0" "count_list q' (CHR ''|'') = 0"
    using free by (simp_all add: count_matrixKey count_list_0_iff)
  then have free': "CHR ''|'' \<notin> set b'" "CHR ''|'' \<notin> set r'" "CHR ''|'' \<notin> set p'"
    by (simp_all add: count_list_0_iff)
  from eq have e1: "b' @ CHR ''|'' # (r' @ CHR ''|'' # (p' @ CHR ''|'' # q')) =
                    b @ CHR ''|'' # (r @ CHR ''|'' # (p @ CHR ''|'' # q))"
    by (simp add: matrixKey_Cons)
  from sep_split[OF free'(1) free(1) e1] have b: "b' = b"
    and e2: "r' @ CHR ''|'' # (p' @ CHR ''|'' # q') = r @ CHR ''|'' # (p @ CHR ''|'' # q)"
    by simp_all
  from sep_split[OF free'(2) free(2) e2] have r: "r' = r"
    and e3: "p' @ CHR ''|'' # q' = p @ CHR ''|'' # q"
    by simp_all
  from sep_split[OF free'(3) free(3) e3] have "p' = p" "q' = q"
    by simp_all
  then show ?thesis using b r by simp
qed

lemma set_concat4:
  "set (concat (map (\<lambda>b. concat (map (\<lambda>r. concat (map (\<lambda>p. map (\<lambda>q. f b r p q) qs) ps)) rs)) bs)) =
     {f b r p q | b r p q. b \<in> set bs \<and> r \<in> set rs \<and> p \<in> set ps \<and> q \<in> set qs}"
  by auto

lemma count_list_pos: "(0 < count_list xs x) = (x \<in> set xs)"
  using count_list_0_iff[of xs x] by auto

lemma set_rowKeys:
  "set (rowKeys row) =
     {matrixKey b r p q | b r p q.
        b \<in> set (expandDim [''WORK'', ''OFF''] (d_base row)) \<and>
        r \<in> set (expandDim [''WORK'', ''OFF'', ''NONE''] (d_rule row)) \<and>
        p \<in> set (expandDim [''TRUE'', ''FALSE''] (d_ph row)) \<and>
        q \<in> set (expandDim [''NONE'', ''COMP_DAY'', ''LEAVE''] (d_req row))}"
  unfolding rowKeys_def by (rule set_concat4)

lemma in_expandDim:
  "v \<in> set vals \<Longrightarrow> (v \<in> set (expandDim vals c)) = dimCovers c v"
  by (auto simp: expandDim_def dimCovers_def wildcard_def)

lemma concrete_pipe_free:
  "b \<in> {''WORK'', ''OFF''} \<Longrightarrow> CHR ''|'' \<notin> set b"
  "r \<in> {''WORK'', ''OFF'', ''NONE''} \<Longrightarrow> CHR ''|'' \<notin> set r"
  "p \<in> {''TRUE'', ''FALSE''} \<Longrightarrow> CHR ''|'' \<notin> set p"
  "q \<in> {''NONE'', ''COMP_DAY'', ''LEAVE''} \<Longrightarrow> CHR ''|'' \<notin> set q"
  by auto

lemma key_in_rowKeys:
  assumes "b \<in> {''WORK'', ''OFF''}" "r \<in> {''WORK'', ''OFF'', ''NONE''}"
    "p \<in> {''TRUE'', ''FALSE''}" "q \<in> {''NONE'', ''COMP_DAY'', ''LEAVE''}"
  shows "(matrixKey b r p q \<in> set (rowKeys row)) = rowCovers row b r p q"
proof -
  have "(matrixKey b r p q \<in> set (rowKeys row)) =
        (b \<in> set (expandDim [''WORK'', ''OFF''] (d_base row)) \<and>
         r \<in> set (expandDim [''WORK'', ''OFF'', ''NONE''] (d_rule row)) \<and>
         p \<in> set (expandDim [''TRUE'', ''FALSE''] (d_ph row)) \<and>
         q \<in> set (expandDim [''NONE'', ''COMP_DAY'', ''LEAVE''] (d_req row)))"
    unfolding set_rowKeys
    using matrixKey_inj[OF concrete_pipe_free(1)[OF assms(1)] concrete_pipe_free(2)[OF assms(2)]
        concrete_pipe_free(3)[OF assms(3)] concrete_pipe_free(4)[OF assms(4)]]
    by (auto dest: sym)
  also have "\<dots> = rowCovers row b r p q"
    using assms by (simp add: in_expandDim rowCovers_def)
  finally show ?thesis .
qed

lemma checkMatch_refl: "checkMatch v v"
  by (simp add: checkMatch_def Let_def)

lemma checkMatch_wildcard: "wildcard c \<Longrightarrow> checkMatch c v"
  unfolding wildcard_def
proof (elim disjE)
  have a: "trim (toUpperCase ''ANY'') = ''ANY''" by code_simp
  have i: "trim (toUpperCase ''IGNORED'') = ''IGNORED''" by code_simp
  { assume "c = ''ANY''" then show "checkMatch c v" using a by (simp add: checkMatch_def Let_def) }
  { assume "c = ''IGNORED''" then show "checkMatch c v" using i by (simp add: checkMatch_def Let_def) }
qed

lemma dimCovers_checkMatch: "dimCovers c v \<Longrightarrow> checkMatch c v"
  by (auto simp: dimCovers_def checkMatch_refl checkMatch_wildcard)

lemma lookup_first_covering:
  assumes "b \<in> {''WORK'', ''OFF''}" "r \<in> {''WORK'', ''OFF'', ''NONE''}"
    "p \<in> {''TRUE'', ''FALSE''}" "q \<in> {''NONE'', ''COMP_DAY'', ''LEAVE''}"
  shows "matrixLookup (buildMatrixIndex sheetRows) b r p q =
           List.find (\<lambda>row. rowCovers row b r p q) (decisionRows sheetRows)"
proof -
  let ?P = "\<lambda>row. checkMatch (d_base row) b \<and> checkMatch (d_rule row) r \<and>
                   checkMatch (d_ph row) p \<and> checkMatch (d_req row) q"
  have "matrixLookup (buildMatrixIndex sheetRows) b r p q =
          List.find ?P (bucketOf (buildMatrixIndex sheetRows) (matrixKey b r p q))"
    by (simp add: matrixLookup_def findMatch_def bucketOf_def)
  also have "\<dots> = List.find (\<lambda>row. 0 < count_list (rowKeys row) (matrixKey b r p q) \<and> ?P row)
                      (decisionRows sheetRows)"
    by (simp only: bucketOf_buildMatrixIndex find_concat_replicate)
  also have "\<dots> = List.find (\<lambda>row. rowCovers row b r p q) (decisionRows sheetRows)"
  proof -
    have "\<And>row. (0 < count_list (rowKeys row) (matrixKey b r p q) \<and> ?P row) = rowCovers row b r p q"
    proof -
      fix row
      have "(0 < count_list (rowKeys row) (matrixKey b r p q)) = rowCovers row b r p q"
        using key_in_rowKeys[OF assms, of row] by (simp add: count_list_pos)
      moreover have "rowCovers row b r p q \<Longrightarrow> ?P row"
        by (simp add: rowCovers_def dimCovers_checkMatch)
      ultimately show "(0 < count_list (rowKeys row) (matrixKey b r p q) \<and> ?P row) = rowCovers row b r p q"
        by blast
    qed
    then show ?thesis by simp
  qed
  finally show ?thesis .
qed


lemma concrete_upper:
  "b \<in> {''WORK'', ''OFF''} \<Longrightarrow> toUpperCase b = b"
  "r \<in> {''WORK'', ''OFF'', ''NONE''} \<Longrightarrow> toUpperCase r = r"
  "p \<in> {''TRUE'', ''FALSE''} \<Longrightarrow> toUpperCase p = p"
  "q \<in> {''NONE'', ''COMP_DAY'', ''LEAVE''} \<Longrightarrow> toUpperCase q = q"
proof -
  have e: "toUpperCase ''WORK'' = ''WORK''" "toUpperCase ''OFF'' = ''OFF''"
    "toUpperCase ''NONE'' = ''NONE''" "toUpperCase ''TRUE'' = ''TRUE''"
    "toUpperCase ''FALSE'' = ''FALSE''" "toUpperCase ''COMP_DAY'' = ''COMP_DAY''"
    "toUpperCase ''LEAVE'' = ''LEAVE''"
    by code_simp+
  show "b \<in> {''WORK'', ''OFF''} \<Longrightarrow> toUpperCase b = b"
    using e by auto
  show "r \<in> {''WORK'', ''OFF'', ''NONE''} \<Longrightarrow> toUpperCase r = r"
    using e by auto
  show "p \<in> {''TRUE'', ''FALSE''} \<Longrightarrow> toUpperCase p = p"
    using e by auto
  show "q \<in> {''NONE'', ''COMP_DAY'', ''LEAVE''} \<Longrightarrow> toUpperCase q = q"
    using e by auto
qed

lemma wildcard_nonempty: "wildcard (toUpperCase c) \<Longrightarrow> c \<noteq> []"
  by (auto simp: wildcard_def toUpperCase_def)

lemma not_wildcard_NONE: "\<not> wildcard (toUpperCase ''NONE'')"
proof -
  have "toUpperCase ''NONE'' = ''NONE''" by code_simp
  then show ?thesis by (simp add: wildcard_def)
qed

lemma decisionRowOf_literalCells:
  assumes "b \<in> {''WORK'', ''OFF''}" "r \<in> {''WORK'', ''OFF'', ''NONE''}"
    "p \<in> {''TRUE'', ''FALSE''}" "q \<in> {''NONE'', ''COMP_DAY'', ''LEAVE''}"
  shows "decisionRowOf (literalCells b r p q d) = literalRow b r p q (decisionRowOf d)"
proof -
  have q0: "q \<noteq> []" using assms(4) by auto
  show ?thesis
    using concrete_upper(1)[OF assms(1)] concrete_upper(2)[OF assms(2)]
      concrete_upper(3)[OF assms(3)] concrete_upper(4)[OF assms(4)] q0
      wildcard_nonempty[of "d_req d"] not_wildcard_NONE
    by (auto simp add: decisionRowOf_def literalCells_def literalRow_def)
qed

lemma literalCells_base_empty:
  assumes "b \<in> {''WORK'', ''OFF''}"
  shows "(d_base (literalCells b r p q d) = []) = (d_base d = [])"
  using assms wildcard_nonempty[of "d_base d"] by (auto simp add: literalCells_def)

lemma decisionRows_literalCells:
  assumes "b \<in> {''WORK'', ''OFF''}" "r \<in> {''WORK'', ''OFF'', ''NONE''}"
    "p \<in> {''TRUE'', ''FALSE''}" "q \<in> {''NONE'', ''COMP_DAY'', ''LEAVE''}"
  shows "decisionRows (map (literalCells b r p q) sheetRows) =
           map (literalRow b r p q) (decisionRows sheetRows)"
  by (induction sheetRows)
    (simp_all add: decisionRows_def decisionRowOf_literalCells[OF assms]
      literalCells_base_empty[OF assms(1)])

lemma rowCovers_literalRow: "rowCovers (literalRow b r p q row) b r p q = rowCovers row b r p q"
  by (auto simp add: rowCovers_def literalRow_def dimCovers_def)

lemma outputs_literalRow: "outputs (literalRow b r p q row) = outputs row"
  by (simp add: outputs_def literalRow_def)

lemma find_map_outputs:
  "map_option outputs (List.find (\<lambda>row. rowCovers row b r p q) (map (literalRow b r p q) rows)) =
   map_option outputs (List.find (\<lambda>row. rowCovers row b r p q) rows)"
  by (induction rows) (simp_all add: rowCovers_literalRow outputs_literalRow)

text \<open>
  C4. For a lookup key drawn from the concrete domains, the lookup in the index built from
  the sheet returns the first row, in sheet order, that covers the key: a row whose
  dimension is \<open>ANY\<close> or \<open>IGNORED\<close> matches every concrete value of that dimension,
  a concrete dimension matches its own value. Writing the looked-up values into the
  wildcard cells of the sheet leaves the final status, the entitlement action and the
  reason of the lookup unchanged.
\<close>

theorem C4_wildcard_lookup:
  assumes "b \<in> {''WORK'', ''OFF''}" and "r \<in> {''WORK'', ''OFF'', ''NONE''}"
    and "p \<in> {''TRUE'', ''FALSE''}" and "q \<in> {''NONE'', ''COMP_DAY'', ''LEAVE''}"
  shows "matrixLookup (buildMatrixIndex sheetRows) b r p q =
           List.find (\<lambda>row. rowCovers row b r p q) (decisionRows sheetRows) \<and>
         map_option outputs
           (matrixLookup (buildMatrixIndex (map (literalCells b r p q) sheetRows)) b r p q) =
           map_option outputs (matrixLookup (buildMatrixIndex sheetRows) b r p q)"
  by (simp add: lookup_first_covering[OF assms] decisionRows_literalCells[OF assms]
      find_map_outputs)

theorem C4_wildcard_lookup_witness:
  "''OFF'' \<in> set [''WORK'', ''OFF''] \<and> ''WORK'' \<in> set [''WORK'', ''OFF'', ''NONE''] \<and>
   ''TRUE'' \<in> set [''TRUE'', ''FALSE''] \<and> ''LEAVE'' \<in> set [''NONE'', ''COMP_DAY'', ''LEAVE''] \<and>
   matrixLookup (buildMatrixIndex exMatrix) ''OFF'' ''WORK'' ''TRUE'' ''LEAVE'' =
     Some (mkDecision ''ANY'' ''ANY'' ''IGNORED'' ''LEAVE'' ''LEAVE'' ''NONE''
             ''Leave takes precedence over all'') \<and>
   map_option outputs (matrixLookup
       (buildMatrixIndex (map (literalCells ''OFF'' ''WORK'' ''TRUE'' ''LEAVE'') exMatrix))
       ''OFF'' ''WORK'' ''TRUE'' ''LEAVE'') =
     Some (''LEAVE'', ''NONE'', ''Leave takes precedence over all'')"
proof -
  have f: "List.find (\<lambda>row. rowCovers row ''OFF'' ''WORK'' ''TRUE'' ''LEAVE'') (decisionRows exMatrix) =
           Some (mkDecision ''ANY'' ''ANY'' ''IGNORED'' ''LEAVE'' ''LEAVE'' ''NONE''
             ''Leave takes precedence over all'')"
    by code_simp
  have o: "outputs (mkDecision ''ANY'' ''ANY'' ''IGNORED'' ''LEAVE'' ''LEAVE'' ''NONE''
             ''Leave takes precedence over all'') =
           (''LEAVE'', ''NONE'', ''Leave takes precedence over all'')"
    by (simp add: outputs_def mkDecision_def)
  show ?thesis
    using C4_wildcard_lookup[of "''OFF''" "''WORK''" "''TRUE''" "''LEAVE''" exMatrix] f o
    by simp
qed

section \<open>The rule index\<close>

lemma ruleList_collectRule:
  "ruleList (collectRule fmt m c) e =
     ruleList m e @ (case rc_start c of
                       None \<Rightarrow> []
                     | Some st \<Rightarrow> if isApproved c \<and> ruleEmployee c \<noteq> [] \<and> ruleEmployee c = e
                                  then [ruleOf fmt c st] else [])"
  by (auto simp add: ruleList_def collectRule_def split: option.splits)

lemma ruleList_foldl_collectRule:
  "ruleList (foldl (collectRule fmt) m cells) e = ruleList m e @ collected fmt cells e"
proof (induction cells arbitrary: m)
  case Nil
  show ?case by (simp add: collected_def)
next
  case (Cons c cells)
  show ?case
    using Cons.IH[of "collectRule fmt m c"]
    by (simp add: ruleList_collectRule collected_def)
qed

lemma collectRule_None:
  "(collectRule fmt m c e = None) =
     (m e = None \<and> (case rc_start c of
                       None \<Rightarrow> True
                     | Some st \<Rightarrow> \<not> (isApproved c \<and> ruleEmployee c \<noteq> [] \<and> ruleEmployee c = e)))"
  by (auto simp add: collectRule_def split: option.splits)

lemma foldl_collectRule_None:
  "(foldl (collectRule fmt) m cells e = None) = (m e = None \<and> collected fmt cells e = [])"
proof (induction cells arbitrary: m)
  case Nil
  show ?case by (simp add: collected_def)
next
  case (Cons c cells)
  show ?case
    using Cons.IH[of "collectRule fmt m c"]
    by (auto simp add: collectRule_None collected_def split: option.splits)
qed

lemma foldl_collectRule_empty:
  "foldl (collectRule fmt) Map.empty cells e =
     (if collected fmt cells e = [] then None else Some (collected fmt cells e))"
proof (cases "foldl (collectRule fmt) Map.empty cells e")
  case None
  then show ?thesis by (simp add: foldl_collectRule_None)
next
  case (Some rs)
  then have "collected fmt cells e \<noteq> []"
    using foldl_collectRule_None[of fmt Map.empty cells e] by auto
  moreover have "rs = collected fmt cells e"
    using ruleList_foldl_collectRule[of fmt Map.empty cells e] Some by (simp add: ruleList_def)
  ultimately show ?thesis using Some by simp
qed

lemma parseRules_Some:
  "parseRules lc fmt (Some sh) e =
     (if rs_hasStatus sh \<and> collected fmt (rs_rows sh) e \<noteq> []
      then Some (sortBy (ruleCompare lc) (collected fmt (rs_rows sh) e)) else None)"
  by (simp add: parseRules_def Let_def foldl_collectRule_empty)

lemma mset_insertBy: "mset (insertBy cmp x xs) = add_mset x (mset xs)"
  by (induction xs) simp_all

lemma mset_sortBy: "mset (sortBy cmp xs) = mset xs"
  by (induction xs) (simp_all add: sortBy_def mset_insertBy)

lemma set_sortBy: "set (sortBy cmp xs) = set xs"
  using mset_sortBy[of cmp xs] by (metis set_mset_mset)








lemma foldl_pick_mem:
  "foldl (pick lc) acc xs = Won w \<Longrightarrow> acc = Won w \<or> w \<in> set xs"
proof (induction xs arbitrary: acc)
  case Nil
  then show ?case by simp
next
  case (Cons x xs)
  from Cons.IH[of "pick lc acc x"] Cons.prems
  have "pick lc acc x = Won w \<or> w \<in> set xs" by simp
  moreover have "pick lc acc x = Won x \<or> pick lc acc x = acc"
    by (simp add: pick_def)
  ultimately show ?case by auto
qed

lemma findWinningRule_mem:
  "findWinningRule lc rules ty = Won w \<Longrightarrow> w \<in> set rules \<and> r_type w = ty"
  using foldl_pick_mem[of lc Placeholder "filter (\<lambda>r. r_type r = ty) rules" w]
  by (simp add: findWinningRule_def)

lemma active_audit: "r \<in> set (activeRules meta rules) \<Longrightarrow> audit_inputs r"
  by (simp add: activeRules_def)

lemma audit_inputs_shift:
  "audit_inputs r = (\<not> (r_type r = ''SHIFT_OVERRIDE'' \<and> trim (r_shift r) = []))"
  by (auto simp add: audit_inputs_def trim_def)

text \<open>
  C7, as amended. \<open>parseRules\<close> keeps every approved row that has an employee and a start
  date in the list of its employee, whatever its shift cell: a SHIFT_OVERRIDE rule with
  an empty shift is not dropped at load time. It is dropped when \<open>resolveEmployeeDay\<close>
  filters the active rules: no active rule, and so no winner of either pass, is a
  SHIFT_OVERRIDE rule whose shift is empty after trimming. A DAY_PATTERN rule passes
  \<open>audit_inputs\<close> whatever its shift, and is active exactly when its date range and
  frequency admit the day.
\<close>

theorem C7_empty_shift_dropped_by_resolver:
  "(rs_hasStatus sh \<and> c \<in> set (rs_rows sh) \<and> isApproved c \<and> rc_start c = Some st \<and>
    ruleEmployee c \<noteq> [] \<longrightarrow>
      (\<exists>rs. parseRules lc fmt (Some sh) (ruleEmployee c) = Some rs \<and> ruleOf fmt c st \<in> set rs)) \<and>
   (r \<in> set (activeRules meta rules) \<longrightarrow>
      \<not> (r_type r = ''SHIFT_OVERRIDE'' \<and> trim (r_shift r) = [])) \<and>
   (findWinningRule lc (activeRules meta rules) ty = Won w \<longrightarrow>
      \<not> (r_type w = ''SHIFT_OVERRIDE'' \<and> trim (r_shift w) = [])) \<and>
   (r_type r = ''DAY_PATTERN'' \<longrightarrow> audit_inputs r \<and>
      (r \<in> set (activeRules meta rules)) =
        (r \<in> set rules \<and> r_start r \<le> m_str meta \<and> m_str meta \<le> r_end r \<and>
         (r_freq r = ''ALL'' \<or> includesStr (r_freq r) (m_day meta))))"
proof -
  have a: "rs_hasStatus sh \<and> c \<in> set (rs_rows sh) \<and> isApproved c \<and> rc_start c = Some st \<and>
           ruleEmployee c \<noteq> [] \<longrightarrow>
           (\<exists>rs. parseRules lc fmt (Some sh) (ruleEmployee c) = Some rs \<and> ruleOf fmt c st \<in> set rs)"
  proof
    assume h: "rs_hasStatus sh \<and> c \<in> set (rs_rows sh) \<and> isApproved c \<and> rc_start c = Some st \<and>
               ruleEmployee c \<noteq> []"
    then have m: "ruleOf fmt c st \<in> set (collected fmt (rs_rows sh) (ruleEmployee c))"
      by (force simp add: collected_def)
    then have "collected fmt (rs_rows sh) (ruleEmployee c) \<noteq> []"
      by auto
    then have "parseRules lc fmt (Some sh) (ruleEmployee c) =
                 Some (sortBy (ruleCompare lc) (collected fmt (rs_rows sh) (ruleEmployee c)))"
      using h by (simp add: parseRules_Some)
    then show "\<exists>rs. parseRules lc fmt (Some sh) (ruleEmployee c) = Some rs \<and> ruleOf fmt c st \<in> set rs"
      using m by (simp add: set_sortBy)
  qed
  have b: "r \<in> set (activeRules meta rules) \<longrightarrow>
           \<not> (r_type r = ''SHIFT_OVERRIDE'' \<and> trim (r_shift r) = [])"
    using active_audit[of r meta rules] by (simp add: audit_inputs_shift)
  have c: "findWinningRule lc (activeRules meta rules) ty = Won w \<longrightarrow>
           \<not> (r_type w = ''SHIFT_OVERRIDE'' \<and> trim (r_shift w) = [])"
    using findWinningRule_mem[of lc "activeRules meta rules" ty w] active_audit[of w meta rules]
    by (auto simp add: audit_inputs_shift)
  have d: "r_type r = ''DAY_PATTERN'' \<longrightarrow> audit_inputs r \<and>
      (r \<in> set (activeRules meta rules)) =
        (r \<in> set rules \<and> r_start r \<le> m_str meta \<and> m_str meta \<le> r_end r \<and>
         (r_freq r = ''ALL'' \<or> includesStr (r_freq r) (m_day meta)))"
    by (auto simp add: audit_inputs_def activeRules_def)
  show ?thesis using a b c d by blast
qed

theorem C7_empty_shift_dropped_by_resolver_witness:
  "isApproved (mkCells ''R-002'' ''EMP-1042 '' ''Shift_Override'' [] 3) \<and>
   ruleEmployee (mkCells ''R-002'' ''EMP-1042 '' ''Shift_Override'' [] 3) = ''emp-1042'' \<and>
   ruleOf exFmt (mkCells ''R-002'' ''EMP-1042 '' ''Shift_Override'' [] 3) 1740787200000 =
     exParsed ''R-002'' [] \<and>
   exParsed ''R-002'' [] \<in> set (ruleList (parseRules codeUnitCompare exFmt (Some exRuleSheet)) ''emp-1042'') \<and>
   exParsed ''R-002'' [] \<notin> set (activeRules exMeta
       (ruleList (parseRules codeUnitCompare exFmt (Some exRuleSheet)) ''emp-1042'')) \<and>
   activeRules exMeta [mkRule ''R-001'' ''DAY_PATTERN'' 5 []] = [mkRule ''R-001'' ''DAY_PATTERN'' 5 []]"
proof -
  let ?c = "mkCells ''R-002'' ''EMP-1042 '' ''Shift_Override'' [] 3"
  have ap: "isApproved ?c" by code_simp
  have em: "ruleEmployee ?c = ''emp-1042''" by code_simp
  have ru: "ruleOf exFmt ?c 1740787200000 = exParsed ''R-002'' []" by code_simp
  have h: "rs_hasStatus exRuleSheet \<and> ?c \<in> set (rs_rows exRuleSheet) \<and> isApproved ?c \<and>
           rc_start ?c = Some 1740787200000 \<and> ruleEmployee ?c \<noteq> []"
    using ap em by (simp add: exRuleSheet_def mkCells_def)
  have ty: "r_type (exParsed ''R-002'' []) = ''SHIFT_OVERRIDE'' \<and> trim (r_shift (exParsed ''R-002'' [])) = []"
    by (simp add: exParsed_def trim_def)
  have dp: "r_type (mkRule ''R-001'' ''DAY_PATTERN'' 5 []) = ''DAY_PATTERN''"
    by (simp add: mkRule_def)
  have rg: "mkRule ''R-001'' ''DAY_PATTERN'' 5 [] \<in> set [mkRule ''R-001'' ''DAY_PATTERN'' 5 []] \<and>
            r_start (mkRule ''R-001'' ''DAY_PATTERN'' 5 []) \<le> m_str exMeta \<and>
            m_str exMeta \<le> r_end (mkRule ''R-001'' ''DAY_PATTERN'' 5 []) \<and>
            r_freq (mkRule ''R-001'' ''DAY_PATTERN'' 5 []) = ''ALL''"
    by (simp add: mkRule_def exMeta_def)
  have inst: "(rs_hasStatus exRuleSheet \<and> ?c \<in> set (rs_rows exRuleSheet) \<and> isApproved ?c \<and>
                rc_start ?c = Some 1740787200000 \<and> ruleEmployee ?c \<noteq> [] \<longrightarrow>
                (\<exists>rs. parseRules codeUnitCompare exFmt (Some exRuleSheet) (ruleEmployee ?c) = Some rs \<and>
                      ruleOf exFmt ?c 1740787200000 \<in> set rs)) \<and>
              (exParsed ''R-002'' [] \<in> set (activeRules exMeta
                   (ruleList (parseRules codeUnitCompare exFmt (Some exRuleSheet)) ''emp-1042'')) \<longrightarrow>
                 \<not> (r_type (exParsed ''R-002'' []) = ''SHIFT_OVERRIDE'' \<and>
                    trim (r_shift (exParsed ''R-002'' [])) = []))"
    using C7_empty_shift_dropped_by_resolver[where sh = exRuleSheet and c = ?c
      and st = 1740787200000 and lc = codeUnitCompare and fmt = exFmt
      and r = "exParsed ''R-002'' []" and meta = exMeta
      and rules = "ruleList (parseRules codeUnitCompare exFmt (Some exRuleSheet)) ''emp-1042''"]
    by blast
  from inst h obtain rs where rs: "parseRules codeUnitCompare exFmt (Some exRuleSheet) (ruleEmployee ?c) = Some rs"
    "ruleOf exFmt ?c 1740787200000 \<in> set rs"
    by blast
  have in1: "exParsed ''R-002'' [] \<in> set (ruleList (parseRules codeUnitCompare exFmt (Some exRuleSheet)) ''emp-1042'')"
    using rs em ru by (simp add: ruleList_def)
  have in2: "exParsed ''R-002'' [] \<notin> set (activeRules exMeta
          (ruleList (parseRules codeUnitCompare exFmt (Some exRuleSheet)) ''emp-1042''))"
    using inst ty by blast
  note one = conjI[OF in1 in2]
  from C7_empty_shift_dropped_by_resolver[where r = "mkRule ''R-001'' ''DAY_PATTERN'' 5 []"
      and meta = exMeta and rules = "[mkRule ''R-001'' ''DAY_PATTERN'' 5 []]"] dp rg
  have "mkRule ''R-001'' ''DAY_PATTERN'' 5 [] \<in> set (activeRules exMeta [mkRule ''R-001'' ''DAY_PATTERN'' 5 []])"
    by blast
  then have two: "activeRules exMeta [mkRule ''R-001'' ''DAY_PATTERN'' 5 []] = [mkRule ''R-001'' ''DAY_PATTERN'' 5 []]"
    by (simp add: activeRules_def split: if_splits)
  show ?thesis using ap em ru one two by blast
qed

text \<open>
  C7 as stated fails: the rule list \<open>parseRules\<close> hands over for \<open>emp-1042\<close> contains the
  SHIFT_OVERRIDE rule \<open>R-002\<close>, whose shift cell is empty.
\<close>

theorem C7_empty_shift_rule_survives_parseRules:
  "parseRules codeUnitCompare exFmt (Some exRuleSheet) ''emp-1042'' =
     Some [exParsed ''R-001'' ''10:00 - 19:00'', exParsed ''R-002'' []] \<and>
   r_type (exParsed ''R-002'' []) = ''SHIFT_OVERRIDE'' \<and>
   trim (r_shift (exParsed ''R-002'' [])) = []"
  by code_simp









section \<open>The entitlement ledger: properties\<close>

lemma keysOf_append: "keysOf fmt (xs @ ys) = keysOf fmt xs @ keysOf fmt ys"
  by (simp add: keysOf_def map_filter_def)

lemma keysOf_Cons:
  "keysOf fmt (r # rs) = (case rowKey fmt r of None \<Rightarrow> keysOf fmt rs | Some k \<Rightarrow> k # keysOf fmt rs)"
  by (simp add: keysOf_def map_filter_def split: option.splits)

lemma keysOf_Nil: "keysOf fmt [] = []"
  by (simp add: keysOf_def map_filter_def)

lemma set_keysOf: "set (keysOf fmt rws) = {k. \<exists>r \<in> set rws. rowKey fmt r = Some k}"
  by (induction rws) (auto simp add: keysOf_Nil keysOf_Cons split: option.splits)

lemma rowKey_cong: "keyCells r' = keyCells r \<Longrightarrow> rowKey fmt r' = rowKey fmt r"
  by (simp add: keyCells_def rowKey_def)

lemma keysOf_cong: "map keyCells rs' = map keyCells rs \<Longrightarrow> keysOf fmt rs' = keysOf fmt rs"
proof (induction rs arbitrary: rs')
  case Nil
  then show ?case by simp
next
  case (Cons r rs)
  then obtain r' rt where e: "rs' = r' # rt" by (cases rs') auto
  then have k: "keyCells r' = keyCells r" and t: "map keyCells rt = map keyCells rs"
    using Cons.prems by simp_all
  show ?case
    using Cons.IH[OF t] e rowKey_cong[OF k, of fmt]
    by (simp add: keysOf_Cons split: option.splits)
qed


text \<open>The rows a grant stages.\<close>

lemma grantRow_cells:
  "lr_employee (grantRow hs now g) = (if h_employee hs then g_employee g else [])"
  "lr_entitlementDate (grantRow hs now g) = (if h_entitlementDate hs then Some (g_date g) else None)"
  by (simp_all add: grantRow_def)

lemma toLowerCase_trim_Nil: "toLowerCase (trim []) = []"
  by (simp add: toLowerCase_def trim_def)

lemma rowKey_grantRow:
  "rowKey fmt (grantRow hs now g) =
     (if h_employee hs \<and> h_entitlementDate hs \<and> toLowerCase (trim (g_employee g)) \<noteq> []
      then Some (grantKey fmt g) else None)"
proof (cases "h_entitlementDate hs")
  case False
  then show ?thesis
    by (simp only: rowKey_def grantRow_cells Let_def if_False option.case simp_thms)
next
  case d: True
  show ?thesis
  proof (cases "h_employee hs")
    case True
    then show ?thesis
      using d by (simp only: rowKey_def grantRow_cells Let_def grantKey_def if_True option.case
          simp_thms)
  next
    case False
    then show ?thesis
      using d by (simp only: rowKey_def grantRow_cells Let_def if_True if_False option.case
          toLowerCase_trim_Nil simp_thms)
  qed
qed

lemma grantAdds_staged:
  "\<exists>gs'. grantAdds fmt hs now ex gs = map (grantRow hs now) gs' \<and> set gs' \<subseteq> set gs \<and>
         distinct (map (grantKey fmt) gs') \<and> (\<forall>g \<in> set gs'. grantKey fmt g \<notin> ex) \<and>
         (\<forall>g \<in> set gs. grantKey fmt g \<notin> ex \<longrightarrow> grantKey fmt g \<in> grantKey fmt ` set gs')"
proof (induction gs arbitrary: ex)
  case Nil
  show ?case by simp
next
  case (Cons g gs)
  show ?case
  proof (cases "grantKey fmt g \<in> ex")
    case True
    from Cons.IH[of ex] obtain gs' where
      "grantAdds fmt hs now ex gs = map (grantRow hs now) gs'" "set gs' \<subseteq> set gs"
      "distinct (map (grantKey fmt) gs')" "\<forall>g \<in> set gs'. grantKey fmt g \<notin> ex"
      "\<forall>g \<in> set gs. grantKey fmt g \<notin> ex \<longrightarrow> grantKey fmt g \<in> grantKey fmt ` set gs'"
      by blast
    then show ?thesis
      using True by (intro exI[of _ gs']) auto
  next
    case False
    from Cons.IH[of "insert (grantKey fmt g) ex"] obtain gs' where
      h: "grantAdds fmt hs now (insert (grantKey fmt g) ex) gs = map (grantRow hs now) gs'"
      "set gs' \<subseteq> set gs" "distinct (map (grantKey fmt) gs')"
      "\<forall>x \<in> set gs'. grantKey fmt x \<notin> insert (grantKey fmt g) ex"
      "\<forall>x \<in> set gs. grantKey fmt x \<notin> insert (grantKey fmt g) ex \<longrightarrow>
          grantKey fmt x \<in> grantKey fmt ` set gs'"
      by blast
    have "grantAdds fmt hs now ex (g # gs) = map (grantRow hs now) (g # gs')"
      using False h(1) by simp
    moreover have "set (g # gs') \<subseteq> set (g # gs)"
      using h(2) by auto
    moreover have "distinct (map (grantKey fmt) (g # gs'))"
      using h(3) h(4) by auto
    moreover have "\<forall>x \<in> set (g # gs'). grantKey fmt x \<notin> ex"
      using h(4) False by auto
    moreover have "\<forall>x \<in> set (g # gs). grantKey fmt x \<notin> ex \<longrightarrow>
                     grantKey fmt x \<in> grantKey fmt ` set (g # gs')"
      using h(5) by auto
    ultimately show ?thesis by blast
  qed
qed


lemma keysOf_map_grantRow:
  "keysOf fmt (map (grantRow hs now) gs) =
     (if h_employee hs \<and> h_entitlementDate hs
      then map (grantKey fmt) (filter (\<lambda>g. toLowerCase (trim (g_employee g)) \<noteq> []) gs) else [])"
  by (induction gs) (simp_all add: keysOf_Nil keysOf_Cons rowKey_grantRow)

lemma existingKeys_eq:
  "existingKeys fmt sh =
     (if h_employee (ls_headers sh) \<and> h_entitlementDate (ls_headers sh)
      then set (keysOf fmt (ls_rows sh)) else {})"
  by (simp add: existingKeys_def keysOf_def)

lemma grant_some:
  "grantEntitlements False fmt now (Some sh) grants =
     Some (sh\<lparr> ls_rows := ls_rows sh @ grantAdds fmt (ls_headers sh) now (existingKeys fmt sh) grants \<rparr>)"
  by (simp add: grantEntitlements_def Let_def)

lemma grant_rows:
  "\<exists>adds. rowsOf (grantEntitlements dry fmt now sheet grants) = rowsOf sheet @ adds \<and>
          distinct (keysOf fmt adds) \<and> set (keysOf fmt adds) \<inter> set (keysOf fmt (rowsOf sheet)) = {}"
proof (cases "dry \<or> sheet = None")
  case True
  then have "rowsOf (grantEntitlements dry fmt now sheet grants) = rowsOf sheet @ []"
    by (auto simp add: grantEntitlements_def)
  then show ?thesis
    by (intro exI[of _ "[]"]) (simp add: keysOf_Nil)
next
  case False
  then obtain sh where sh: "sheet = Some sh" and nd: "\<not> dry" by auto
  let ?hs = "ls_headers sh"
  obtain gs' where
    g: "grantAdds fmt ?hs now (existingKeys fmt sh) grants = map (grantRow ?hs now) gs'"
    "distinct (map (grantKey fmt) gs')" "\<forall>g \<in> set gs'. grantKey fmt g \<notin> existingKeys fmt sh"
    using grantAdds_staged[of fmt ?hs now "existingKeys fmt sh" grants]
    by (elim exE conjE) (rule that)
  let ?adds = "map (grantRow ?hs now) gs'"
  have r: "rowsOf (grantEntitlements dry fmt now sheet grants) = rowsOf sheet @ ?adds"
    using sh nd g(1) by (simp add: grant_some rowsOf_def)
  have d: "distinct (keysOf fmt ?adds)"
    using g(2) by (simp add: keysOf_map_grantRow distinct_map_filter)
  have i: "set (keysOf fmt ?adds) \<inter> set (keysOf fmt (rowsOf sheet)) = {}"
    using g(3) sh by (auto simp add: keysOf_map_grantRow existingKeys_eq rowsOf_def)
  show ?thesis
    by (rule exI[of _ ?adds]) (simp only: r d i simp_thms)
qed

text \<open>Revocation rewrites two cells and keeps every row in place.\<close>

lemma keyCells_revokeRow: "keyCells (revokeRow fmt hs rmap r) = keyCells r"
  by (simp add: revokeRow_def keyCells_def split: option.splits)



lemma revoke_rows:
  "\<exists>rs'. rowsOf (revokeLedger dry fmt sheet revs) = rs' \<and> map keyCells rs' = map keyCells (rowsOf sheet)"
  by (auto simp add: revokeLedger_def rowsOf_def Let_def keyCells_revokeRow split: option.splits)


text \<open>Runs of operations.\<close>

lemma op_step:
  "\<exists>adds. map keyCells (rowsOf (applyOp dry fmt sheet op)) = map keyCells (rowsOf sheet @ adds) \<and>
          distinct (keysOf fmt adds) \<and> set (keysOf fmt adds) \<inter> set (keysOf fmt (rowsOf sheet)) = {}"
proof (cases op)
  case (Grant now grants)
  from grant_rows[of dry fmt now sheet grants] obtain adds where
    a: "rowsOf (grantEntitlements dry fmt now sheet grants) = rowsOf sheet @ adds"
    "distinct (keysOf fmt adds)" "set (keysOf fmt adds) \<inter> set (keysOf fmt (rowsOf sheet)) = {}"
    by (elim exE conjE)
  show ?thesis
    by (rule exI[of _ adds]) (simp only: Grant applyOp.simps a simp_thms)
next
  case (Revoke revs)
  from revoke_rows[of dry fmt sheet revs]
  have "map keyCells (rowsOf (revokeLedger dry fmt sheet revs)) = map keyCells (rowsOf sheet @ [])"
    by simp
  then show ?thesis
    by (intro exI[of _ "[]"]) (simp add: Revoke keysOf_Nil)
qed

lemma op_step_distinct:
  assumes "distinct (keysOf fmt (rowsOf sheet))"
  shows "distinct (keysOf fmt (rowsOf (applyOp dry fmt sheet op)))"
proof -
  from op_step[of dry fmt sheet op] obtain adds where
    a: "map keyCells (rowsOf (applyOp dry fmt sheet op)) = map keyCells (rowsOf sheet @ adds)"
    "distinct (keysOf fmt adds)" "set (keysOf fmt adds) \<inter> set (keysOf fmt (rowsOf sheet)) = {}"
    by (elim exE conjE)
  have "keysOf fmt (rowsOf (applyOp dry fmt sheet op)) = keysOf fmt (rowsOf sheet) @ keysOf fmt adds"
    using keysOf_cong[OF a(1), of fmt] by (simp add: keysOf_append)
  then show ?thesis
    using assms a(2) a(3) by auto
qed

lemma op_step_prefix:
  "take (length (rowsOf sheet)) (map keyCells (rowsOf (applyOp dry fmt sheet op))) =
     map keyCells (rowsOf sheet)"
proof -
  from op_step[of dry fmt sheet op] obtain adds where
    a: "map keyCells (rowsOf (applyOp dry fmt sheet op)) = map keyCells (rowsOf sheet @ adds)"
    by (elim exE conjE)
  show ?thesis by (simp add: a)
qed

lemma take_take_prefix:
  assumes "take (length xs) ys = xs" and "take (length ys) zs = ys"
  shows "take (length xs) zs = xs"
proof -
  have "length (take (length xs) ys) = length xs"
    using assms(1) by simp
  then have "length xs \<le> length ys"
    by simp
  then have "take (length xs) zs = take (length xs) (take (length ys) zs)"
    by (simp add: min_def)
  then show ?thesis using assms by simp
qed

lemma ops_invariant:
  assumes "distinct (keysOf fmt (rowsOf sheet))"
  shows "distinct (keysOf fmt (rowsOf (applyOps dry fmt sheet ops))) \<and>
         take (length (rowsOf sheet)) (map keyCells (rowsOf (applyOps dry fmt sheet ops))) =
           map keyCells (rowsOf sheet)"
  using assms
proof (induction ops arbitrary: sheet)
  case Nil
  then show ?case by (simp add: applyOps_def)
next
  case (Cons op ops)
  let ?s1 = "applyOp dry fmt sheet op"
  have d1: "distinct (keysOf fmt (rowsOf ?s1))"
    using Cons.prems by (rule op_step_distinct)
  from Cons.IH[OF d1] have
    dn: "distinct (keysOf fmt (rowsOf (applyOps dry fmt ?s1 ops)))" and
    pn: "take (length (rowsOf ?s1)) (map keyCells (rowsOf (applyOps dry fmt ?s1 ops))) =
           map keyCells (rowsOf ?s1)"
    by simp_all
  have e: "applyOps dry fmt sheet (op # ops) = applyOps dry fmt ?s1 ops"
    by (simp add: applyOps_def)
  have p1: "take (length (map keyCells (rowsOf sheet))) (map keyCells (rowsOf ?s1)) =
              map keyCells (rowsOf sheet)"
    using op_step_prefix[of sheet dry fmt op] by simp
  have pn': "take (length (map keyCells (rowsOf ?s1))) (map keyCells (rowsOf (applyOps dry fmt ?s1 ops))) =
           map keyCells (rowsOf ?s1)"
    using pn by simp
  have "take (length (map keyCells (rowsOf sheet))) (map keyCells (rowsOf (applyOps dry fmt ?s1 ops))) =
          map keyCells (rowsOf sheet)"
    using take_take_prefix[OF p1 pn'] .
  then show ?case
    using dn e by simp
qed

lemma distinct_count_le: "distinct xs \<Longrightarrow> count_list xs k \<le> 1"
  by (induction xs) (auto simp add: count_list_0_iff)


lemma keys_prefix_subset:
  assumes "take (length rs) (map keyCells rs') = map keyCells rs"
  shows "set (keysOf fmt rs) \<subseteq> set (keysOf fmt rs')"
proof -
  have "map keyCells (take (length rs) rs') = map keyCells rs"
    using assms by (simp add: take_map)
  then have k: "keysOf fmt (take (length rs) rs') = keysOf fmt rs"
    by (rule keysOf_cong)
  have "keysOf fmt rs' = keysOf fmt (take (length rs) rs') @ keysOf fmt (drop (length rs) rs')"
    using keysOf_append[of fmt "take (length rs) rs'" "drop (length rs) rs'"] by simp
  then show ?thesis using k by auto
qed

text \<open>
  C9 fails on the code. The ledger \<open>exLedger\<close> has one entry per (employee, date) key.
  Two grants of the intent that \<open>processRoster\<close> builds for a blank employee cell, for
  \<open>2025-03-10\<close>, append two rows with the same key, both \<open>Active\<close>: the scan of the
  snapshot passes over a row whose employee is empty, so the second run does not find
  the row the first run wrote.
\<close>

theorem C9_blank_employee_entry_added_twice:
  "distinct (map (entryKey exFmt) (ls_rows exLedger)) \<and>
   rowsOf (applyOps False exFmt (Some exLedger) exBlankOps) =
     ls_rows exLedger @
       [\<lparr> lr_employee = [], lr_entitlementDate = Some 1741564800000,
          lr_activation = ''Active'', lr_entitlement = ''COMP_DAY'', lr_scriptNote = [],
          lr_timestamp = None \<rparr>,
        \<lparr> lr_employee = [], lr_entitlementDate = Some 1741564800000,
          lr_activation = ''Active'', lr_entitlement = ''COMP_DAY'', lr_scriptNote = [],
          lr_timestamp = None \<rparr>] \<and>
   length (filter (\<lambda>r. entryKey exFmt r = ([], Some ''2025-03-10''))
     (ls_rows exLedger)) = 0 \<and>
   length (filter (\<lambda>r. entryKey exFmt r = ([], Some ''2025-03-10''))
     (rowsOf (applyOps False exFmt (Some exLedger) exBlankOps))) = 2 \<and>
   length (filter (\<lambda>r. entryKey exFmt r = ([], Some ''2025-03-10'') \<and> lr_activation r = ''Active'')
     (rowsOf (applyOps False exFmt (Some exLedger) exBlankOps))) = 2"
  by code_simp


lemma revokeMap_dom: "(revokeMap revs key \<noteq> None) = (key \<in> revokeKey ` set revs)"
proof -
  have "dom (revokeMap revs) = revokeKey ` set revs"
    unfolding revokeMap_def by (simp add: dom_map_of_conv_image_fst image_image)
  then show ?thesis by (auto simp add: dom_def)
qed



























end
